theory Spec2Isabelle
  imports Complex_Main
begin

section \<open>Floating-point values as the sampler sees them\<close>

text \<open>
  The sampler of \<^verbatim>\<open>cobaya/samplers/mcmc/mcmc.py\<close> works on Python/numpy floats and
  branches on their special values (\<^verbatim>\<open>== -np.inf\<close>, \<^verbatim>\<open>> -np.inf\<close>,
  \<^verbatim>\<open>np.isnan\<close>). A float is modelled as one of the three IEEE specials or a finite
  value; finite values are exact reals, so rounding error is not part of the model.
  Comparisons and arithmetic on the specials follow IEEE 754 as numpy implements it:
  every comparison with NaN is false, \<open>\<infinity> - \<infinity>\<close> and \<open>0 \<sqdot> \<infinity>\<close> are NaN, and numpy's
  division by zero gives an infinity or NaN instead of raising.
\<close>

datatype pyfloat = MinusInf | Finite real | PlusInf | NaN

fun isnan :: "pyfloat \<Rightarrow> bool" where
  "isnan NaN = True"
| "isnan _ = False"

fun isfinite :: "pyfloat \<Rightarrow> bool" where
  "isfinite (Finite _) = True"
| "isfinite _ = False"

text \<open>Python's \<^verbatim>\<open>a == b\<close> on floats.\<close>

fun feq :: "pyfloat \<Rightarrow> pyfloat \<Rightarrow> bool" where
  "feq NaN _ = False"
| "feq _ NaN = False"
| "feq a b = (a = b)"

text \<open>Python's \<^verbatim>\<open>a > b\<close> on floats.\<close>

fun fgt :: "pyfloat \<Rightarrow> pyfloat \<Rightarrow> bool" where
  "fgt NaN _ = False"
| "fgt _ NaN = False"
| "fgt MinusInf _ = False"
| "fgt (Finite x) MinusInf = True"
| "fgt (Finite x) (Finite y) = (y < x)"
| "fgt (Finite x) PlusInf = False"
| "fgt PlusInf PlusInf = False"
| "fgt PlusInf _ = True"

text \<open>Python's \<^verbatim>\<open>a <= b\<close> on floats.\<close>

fun fle :: "pyfloat \<Rightarrow> pyfloat \<Rightarrow> bool" where
  "fle NaN _ = False"
| "fle _ NaN = False"
| "fle a b = (\<not> fgt a b)"

fun fneg :: "pyfloat \<Rightarrow> pyfloat" where
  "fneg NaN = NaN"
| "fneg MinusInf = PlusInf"
| "fneg PlusInf = MinusInf"
| "fneg (Finite x) = Finite (- x)"

fun fabs :: "pyfloat \<Rightarrow> pyfloat" where
  "fabs NaN = NaN"
| "fabs MinusInf = PlusInf"
| "fabs PlusInf = PlusInf"
| "fabs (Finite x) = Finite \<bar>x\<bar>"

fun fadd :: "pyfloat \<Rightarrow> pyfloat \<Rightarrow> pyfloat" where
  "fadd NaN _ = NaN"
| "fadd _ NaN = NaN"
| "fadd PlusInf MinusInf = NaN"
| "fadd MinusInf PlusInf = NaN"
| "fadd PlusInf _ = PlusInf"
| "fadd _ PlusInf = PlusInf"
| "fadd MinusInf _ = MinusInf"
| "fadd _ MinusInf = MinusInf"
| "fadd (Finite x) (Finite y) = Finite (x + y)"

definition fsub :: "pyfloat \<Rightarrow> pyfloat \<Rightarrow> pyfloat" where
  "fsub a b = fadd a (fneg b)"

text \<open>The sign of an infinity, or of a finite value; zero counts as positive zero.\<close>

fun fnegative :: "pyfloat \<Rightarrow> bool" where
  "fnegative MinusInf = True"
| "fnegative (Finite x) = (x < 0)"
| "fnegative _ = False"

definition signed_inf :: "bool \<Rightarrow> pyfloat" where
  "signed_inf negative = (if negative then MinusInf else PlusInf)"

fun fmul :: "pyfloat \<Rightarrow> pyfloat \<Rightarrow> pyfloat" where
  "fmul NaN _ = NaN"
| "fmul _ NaN = NaN"
| "fmul (Finite x) (Finite y) = Finite (x * y)"
| "fmul (Finite x) b = (if x = 0 then NaN else signed_inf ((x < 0) \<noteq> fnegative b))"
| "fmul a (Finite y) = (if y = 0 then NaN else signed_inf (fnegative a \<noteq> (y < 0)))"
| "fmul a b = signed_inf (fnegative a \<noteq> fnegative b)"

text \<open>numpy's true division: a zero divisor gives an infinity or NaN (with a warning).\<close>

fun fdiv :: "pyfloat \<Rightarrow> pyfloat \<Rightarrow> pyfloat" where
  "fdiv NaN _ = NaN"
| "fdiv _ NaN = NaN"
| "fdiv (Finite x) (Finite y) =
     (if y = 0 then (if x = 0 then NaN else signed_inf (x < 0)) else Finite (x / y))"
| "fdiv (Finite x) b = Finite 0"
| "fdiv a (Finite y) = signed_inf (fnegative a \<noteq> (y < 0))"
| "fdiv a b = NaN"

definition of_count :: "nat \<Rightarrow> pyfloat" where
  "of_count n = Finite (real n)"

section \<open>The Metropolis acceptance test\<close>

text \<open>
  \<^verbatim>\<open>metropolis_accept(self, logp_trial, logp_current)\<close>. The only effect is the draw
  \<^verbatim>\<open>np.random.exponential()\<close> of the last branch: the random source is a state \<open>'r\<close>
  with a function that returns the draw and the next state, and the source is left
  untouched on the two branches that do not draw.
\<close>

definition metropolis_accept ::
  "('r \<Rightarrow> pyfloat \<times> 'r) \<Rightarrow> pyfloat \<Rightarrow> pyfloat \<Rightarrow> 'r \<Rightarrow> bool \<times> 'r" where
  "metropolis_accept exponential logp_trial logp_current r =
     (if feq logp_trial MinusInf then (False, r)
      else if fgt logp_trial logp_current then (True, r)
      else (let (e, r') = exponential r
            in (fgt e (fsub logp_current logp_trial), r')))"

section \<open>Errors\<close>

text \<open>
  Every exception the modelled code can raise is a value. \<open>HandledException\<close> is the
  sampler's own fatal error (raised after \<^verbatim>\<open>self.log.error\<close>); the others are the
  Python exceptions of unguarded operations.
\<close>

datatype error =
    HandledException
  | IndexError
  | ValueError
  | AssertionError
  | AttributeError
  | ZeroDivisionError

section \<open>Assembling the initial proposal covariance\<close>

type_synonym matrix = "pyfloat list list"

text \<open>
  The per-parameter information the assembler reads: the optional \<^verbatim>\<open>proposal\<close> width
  of the parameter's info dictionary, and what the prior object knows about it.
\<close>

record param_info =
  proposal :: "pyfloat option"
  ref_variance :: "pyfloat option"
  prior_variance :: pyfloat

text \<open>
  The \<^verbatim>\<open>covmat\<close> option: absent, a file name, or a matrix in memory (which comes with
  \<^verbatim>\<open>covmat_params\<close>).
\<close>

datatype covmat_setting = NoCovmat | CovmatFile string | CovmatArray matrix

text \<open>
  Modelled from the spec: \<^verbatim>\<open>self.prior.reference_covmat()\<close> belongs to the prior
  object, which is not among the sources. The specification gives its diagonal: the
  variance of the reference pdf if one is defined, otherwise the variance of the prior.
\<close>

definition reference_covmat_diagonal :: "param_info list \<Rightarrow> pyfloat list" where
  "reference_covmat_diagonal infos =
     map (\<lambda>info. case ref_variance info of Some v \<Rightarrow> v | None \<Rightarrow> prior_variance info) infos"

text \<open>\<^verbatim>\<open>np.diag([np.nan]*d)\<close>: NaN on the diagonal, zero elsewhere.\<close>

definition nan_diag :: "nat \<Rightarrow> matrix" where
  "nan_diag d = map (\<lambda>i. map (\<lambda>j. if i = j then NaN else Finite 0) [0..<d]) [0..<d]"

definition diagonal :: "matrix \<Rightarrow> pyfloat list" where
  "diagonal m = map (\<lambda>i. m ! i ! i) [0..<length m]"

text \<open>\<^verbatim>\<open>m[i, j] = v\<close> on an array.\<close>

definition set_entry :: "matrix \<Rightarrow> nat \<Rightarrow> nat \<Rightarrow> pyfloat \<Rightarrow> matrix" where
  "set_entry m i j v = m[i := (m ! i)[j := v]]"

text \<open>
  \<^verbatim>\<open>covmat[np.ix_(indices_sampler, indices_sampler)] = loaded_covmat[np.ix_(indices_used,
  indices_used)]\<close>: for every two positions \<open>a\<close>, \<open>b\<close> of the index arrays, entry
  \<open>(indices_sampler[a], indices_sampler[b])\<close> of the target receives entry
  \<open>(indices_used[a], indices_used[b])\<close> of the loaded matrix. A pair of the list below is
  \<open>(indices_sampler[a], indices_used[a])\<close>.
\<close>

definition ix_assign :: "matrix \<Rightarrow> (nat \<times> nat) list \<Rightarrow> matrix \<Rightarrow> matrix" where
  "ix_assign covmat pairs loaded =
     foldl (\<lambda>m ((i, u), (j, w)). set_entry m i j (loaded ! u ! w)) covmat
       (List.product pairs pairs)"

text \<open>
  \<^verbatim>\<open>covmat[where_nan, where_nan] = arr[where_nan]\<close> with a boolean mask: the diagonal
  entries the mask selects receive the entries of \<open>arr\<close> at the same positions.
\<close>

definition mask_assign_diag :: "matrix \<Rightarrow> bool list \<Rightarrow> pyfloat list \<Rightarrow> matrix" where
  "mask_assign_diag covmat where_nan arr =
     foldl (\<lambda>m i. if where_nan ! i then set_entry m i i (arr ! i) else m) covmat
       [0..<length covmat]"

text \<open>\<^verbatim>\<open>xs.index(x)\<close>, used only on elements of \<open>xs\<close>.\<close>

definition index :: "'a list \<Rightarrow> 'a \<Rightarrow> nat" where
  "index xs x = length (takeWhile (\<lambda>y. y \<noteq> x) xs)"

text \<open>
  \<^verbatim>\<open>np.isclose(a, b)\<close> with the default tolerances \<open>rtol = 1e-5\<close>, \<open>atol = 1e-8\<close>:
  finite values are compared up to the tolerance, infinities must be equal, and NaN is
  close to nothing. \<^verbatim>\<open>np.allclose(loaded_covmat.T, loaded_covmat)\<close> asks it of every
  entry against its transposed one.
\<close>

fun isclose :: "pyfloat \<Rightarrow> pyfloat \<Rightarrow> bool" where
  "isclose NaN _ = False"
| "isclose _ NaN = False"
| "isclose (Finite x) (Finite y) = (\<bar>x - y\<bar> \<le> 1 / 10 ^ 8 + (1 / 10 ^ 5) * \<bar>y\<bar>)"
| "isclose a b = (a = b)"

definition allclose_transpose :: "matrix \<Rightarrow> bool" where
  "allclose_transpose m =
     list_all (\<lambda>i. list_all (\<lambda>j. isclose (m ! j ! i) (m ! i ! j)) [0..<length m])
       [0..<length m]"

definition is_square :: "matrix \<Rightarrow> bool" where
  "is_square m = list_all (\<lambda>row. length row = length m) m"

text \<open>
  The header of a covariance file: \<^verbatim>\<open>header.strip("#").strip().split()\<close>.
  Python's whitespace is space, tab, newline, carriage return, vertical tab and form feed.
\<close>

definition is_space :: "char \<Rightarrow> bool" where
  "is_space c = (c \<in> set [CHR '' '', CHR 0x09, CHR 0x0A, CHR 0x0D, CHR 0x0B, CHR 0x0C])"

definition strip_where :: "(char \<Rightarrow> bool) \<Rightarrow> string \<Rightarrow> string" where
  "strip_where P s = rev (dropWhile P (rev (dropWhile P s)))"

fun split_acc :: "string \<Rightarrow> string \<Rightarrow> string list" where
  "split_acc w [] = (if w = [] then [] else [w])"
| "split_acc w (c # cs) =
     (if is_space c then (if w = [] then split_acc [] cs else w # split_acc [] cs)
      else split_acc (w @ [c]) cs)"

definition parse_header :: "string \<Rightarrow> string list" where
  "parse_header header =
     split_acc [] (strip_where is_space (strip_where (\<lambda>c. c = CHR ''#'') header))"

text \<open>
  Lines 285--313 of \<^verbatim>\<open>initial_proposal_covmat\<close>: reading the external covariance.
  The file system is the function \<open>read_file\<close>: the first line of the named file and the
  matrix \<^verbatim>\<open>np.loadtxt\<close> reads from it, or \<open>None\<close> when the file cannot be opened.
  The result is \<open>None\<close> when no covariance is configured, and the loaded parameter names
  with the loaded matrix otherwise.
\<close>

definition load_covmat ::
  "(string \<Rightarrow> (string \<times> matrix) option) \<Rightarrow> covmat_setting \<Rightarrow> string list
     \<Rightarrow> error + (string list \<times> matrix) option" where
  "load_covmat read_file covmat covmat_params =
     (case covmat of
        CovmatFile name \<Rightarrow>
          (case read_file name of
             None \<Rightarrow> Inl HandledException
           | Some (header, loaded_covmat) \<Rightarrow>
               (case header of
                  [] \<Rightarrow> Inl IndexError
                | c # _ \<Rightarrow>
                    if c \<noteq> CHR ''#'' then Inl HandledException
                    else Inr (Some (parse_header header, loaded_covmat))))
      | CovmatArray loaded_covmat \<Rightarrow>
          if covmat_params = [] then Inl HandledException
          else Inr (Some (covmat_params, loaded_covmat))
      | NoCovmat \<Rightarrow> Inr None)"

text \<open>
  Lines 314--355: validating the loaded matrix and copying the entries of the parameters
  that are sampled. \<^verbatim>\<open>np.linalg.eigvals\<close> is numerical linear algebra outside the
  model, so the test \<^verbatim>\<open>np.all(np.linalg.eigvals(loaded_covmat) > 0)\<close> is the parameter
  \<open>eigvals_positive\<close>. A matrix that is not square makes numpy raise inside the
  symmetry test; the model raises \<open>ValueError\<close> there.
\<close>

definition fill_from_loaded ::
  "(matrix \<Rightarrow> bool) \<Rightarrow> string list \<Rightarrow> string list \<Rightarrow> matrix \<Rightarrow> matrix \<Rightarrow> error + matrix" where
  "fill_from_loaded eigvals_positive params loaded_params loaded_covmat covmat =
     (if length loaded_params \<noteq> length (remdups loaded_params) then Inl HandledException
      else if length loaded_params \<noteq> length loaded_covmat then Inl HandledException
      else if \<not> is_square loaded_covmat then Inl ValueError
      else if \<not> (allclose_transpose loaded_covmat \<and> eigvals_positive loaded_covmat)
        then Inl HandledException
      else
        let loaded_params_used = filter (\<lambda>p. p \<in> set params) loaded_params
        in if loaded_params_used = [] then Inl HandledException
           else Inr (ix_assign covmat
                  (map (\<lambda>p. (index params p, index loaded_params p)) loaded_params_used)
                  loaded_covmat))"

text \<open>
  Lines 356--373: the gaps left on the diagonal are filled from the \<^verbatim>\<open>proposal\<close>
  property (\<^verbatim>\<open>info.get(_p_proposal, np.nan)**2\<close>), then from the prior's reference
  covariance, and the result is asserted free of NaN. The first filling also overwrites
  \<^verbatim>\<open>self.learn_proposal_Rminus1_max\<close>; the second component of the result is the
  value of that attribute when the function is left.
\<close>

definition fill_gaps ::
  "matrix \<Rightarrow> param_info list \<Rightarrow> pyfloat \<Rightarrow> pyfloat \<Rightarrow> (error + matrix) \<times> pyfloat" where
  "fill_gaps covmat1 params_infos learn_proposal_Rminus1_max learn_proposal_Rminus1_max_early =
     (let where_nan = map isnan (diagonal covmat1);
          (covmat2, Rminus1_max) =
            (if list_ex id where_nan
             then (mask_assign_diag covmat1 where_nan
                     (map (\<lambda>info. case proposal info of
                                     None \<Rightarrow> fmul NaN NaN
                                   | Some w \<Rightarrow> fmul w w) params_infos),
                   learn_proposal_Rminus1_max_early)
             else (covmat1, learn_proposal_Rminus1_max));
          where_nan' = map isnan (diagonal covmat2);
          covmat3 =
            (if list_ex id where_nan'
             then mask_assign_diag covmat2 where_nan' (reference_covmat_diagonal params_infos)
             else covmat2)
      in if list_ex (list_ex isnan) covmat3 then (Inl AssertionError, Rminus1_max)
         else (Inr covmat3, Rminus1_max))"

text \<open>
  \<^verbatim>\<open>initial_proposal_covmat(self)\<close>. The sampled parameters are the ordered dictionary
  \<^verbatim>\<open>self.parametrization.sampled_params()\<close>, as the list of its items (unpacking the
  items of an empty dictionary raises \<open>ValueError\<close>). The function returns the matrix,
  or raises; the result is paired with the value of
  \<^verbatim>\<open>self.learn_proposal_Rminus1_max\<close> when the function is left.
\<close>

definition initial_proposal_covmat ::
  "(string \<Rightarrow> (string \<times> matrix) option) \<Rightarrow> (matrix \<Rightarrow> bool)
     \<Rightarrow> (string \<times> param_info) list \<Rightarrow> covmat_setting \<Rightarrow> string list
     \<Rightarrow> pyfloat \<Rightarrow> pyfloat \<Rightarrow> (error + matrix) \<times> pyfloat" where
  "initial_proposal_covmat read_file eigvals_positive sampled_params covmat covmat_params
       learn_proposal_Rminus1_max learn_proposal_Rminus1_max_early =
     (if sampled_params = [] then (Inl ValueError, learn_proposal_Rminus1_max)
      else
        let params = map fst sampled_params;
            params_infos = map snd sampled_params;
            covmat0 = nan_diag (length params)
        in case load_covmat read_file covmat covmat_params of
             Inl e \<Rightarrow> (Inl e, learn_proposal_Rminus1_max)
           | Inr None \<Rightarrow>
               fill_gaps covmat0 params_infos
                 learn_proposal_Rminus1_max learn_proposal_Rminus1_max_early
           | Inr (Some (loaded_params, loaded_covmat)) \<Rightarrow>
               (case fill_from_loaded eigvals_positive params loaded_params loaded_covmat
                       covmat0 of
                  Inl e \<Rightarrow> (Inl e, learn_proposal_Rminus1_max)
                | Inr covmat1 \<Rightarrow>
                    fill_gaps covmat1 params_infos
                      learn_proposal_Rminus1_max learn_proposal_Rminus1_max_early))"

text \<open>
  The parameter names an external covariance supplies: those of the loaded header or of
  \<^verbatim>\<open>covmat_params\<close>, and none when no covariance is configured or loading fails;
  with them, the matrix they index.
\<close>

definition supplied_params ::
  "(string \<Rightarrow> (string \<times> matrix) option) \<Rightarrow> covmat_setting \<Rightarrow> string list \<Rightarrow> string list" where
  "supplied_params read_file covmat covmat_params =
     (case load_covmat read_file covmat covmat_params of
        Inr (Some (loaded_params, loaded_covmat)) \<Rightarrow> loaded_params
      | _ \<Rightarrow> [])"

definition supplied_covmat ::
  "(string \<Rightarrow> (string \<times> matrix) option) \<Rightarrow> covmat_setting \<Rightarrow> string list \<Rightarrow> matrix" where
  "supplied_covmat read_file covmat covmat_params =
     (case load_covmat read_file covmat covmat_params of
        Inr (Some (loaded_params, loaded_covmat)) \<Rightarrow> loaded_covmat
      | _ \<Rightarrow> [])"

text \<open>
  The variance \<^verbatim>\<open>info.get(_p_proposal, np.nan)**2\<close> a parameter declares, when it
  declares one that is a number.
\<close>

definition declared_variance :: "param_info \<Rightarrow> pyfloat option" where
  "declared_variance info =
     (case proposal info of
        None \<Rightarrow> None
      | Some w \<Rightarrow> if isnan (fmul w w) then None else Some (fmul w w))"

text \<open>
  One gap-filling step of \<open>fill_gaps\<close> on its own: if the diagonal has a NaN, the
  masked assignment from \<open>arr\<close>, otherwise the matrix as it is.
\<close>

definition stage :: "matrix \<Rightarrow> pyfloat list \<Rightarrow> matrix" where
  "stage c arr = (if list_ex id (map isnan (diagonal c))
                  then mask_assign_diag c (map isnan (diagonal c)) arr else c)"

text \<open>
  What the matrix looks like once the external covariance has been copied in: the entries
  of two supplied parameters are the loaded ones (none of which is NaN), the other
  diagonal entries are NaN and the other off-diagonal entries zero.
\<close>

definition after_loading :: "string list \<Rightarrow> string list \<Rightarrow> matrix \<Rightarrow> matrix \<Rightarrow> bool" where
  "after_loading params lp L c \<longleftrightarrow>
     length c = length params \<and>
     (\<forall>i < length params. length (c ! i) = length params \<and>
        (\<forall>j < length params. c ! i ! j =
           (if params ! i \<in> set lp \<and> params ! j \<in> set lp
            then L ! index lp (params ! i) ! index lp (params ! j)
            else if i = j then NaN else Finite 0))) \<and>
     (\<forall>p \<in> set lp. \<forall>q \<in> set lp. \<not> isnan (L ! index lp p ! index lp q))"

subsection \<open>Example inputs\<close>

text \<open>
  The covariance-assembly scenario of the specification: parameters \<open>a\<close>, \<open>b\<close>, \<open>c\<close>;
  an external covariance for \<open>a\<close> and \<open>b\<close>; \<open>c\<close> declares the proposal width 0.2; all
  reference variances are 1.
\<close>

definition scenario_params :: "(string \<times> param_info) list" where
  "scenario_params =
     [(''a'', \<lparr>proposal = None, ref_variance = Some (Finite 1), prior_variance = Finite 4\<rparr>),
      (''b'', \<lparr>proposal = None, ref_variance = Some (Finite 1), prior_variance = Finite 4\<rparr>),
      (''c'', \<lparr>proposal = Some (Finite (2 / 10)), ref_variance = Some (Finite 1),
              prior_variance = Finite 4\<rparr>)]"



text \<open>A file system holding one covariance file for \<open>b\<close> and \<open>a\<close>, in that order.\<close>

definition one_file :: "string \<Rightarrow> (string \<times> matrix) option" where
  "one_file name =
     (if name = ''ba.covmat''
      then Some (''# b a'' @ [CHR 0x0A],
                 [[Finite (2 / 10), Finite (1 / 100)], [Finite (1 / 100), Finite (1 / 10)]])
      else None)"

definition no_file :: "string \<Rightarrow> (string \<times> matrix) option" where
  "no_file name = None"

text \<open>The stand-in for numpy's eigenvalue test on the examples, whose matrices pass it.\<close>

definition eigvals_ok :: "matrix \<Rightarrow> bool" where
  "eigvals_ok m = True"

text \<open>A parameter that declares no proposal width and has no reference pdf.\<close>

definition no_width :: param_info where
  "no_width = \<lparr>proposal = None, ref_variance = None, prior_variance = Finite 4\<rparr>"

section \<open>The sampler's state\<close>

text \<open>
  Parameter vectors are numpy arrays, which the code copies (\<^verbatim>\<open>deepcopy\<close>) and mutates in
  place (\<^verbatim>\<open>get_proposal(trial)\<close>, \<^verbatim>\<open>+=\<close>). To keep aliasing visible they live in a
  store: an array is an address, and the store maps addresses to the vectors they hold.
\<close>

type_synonym addr = nat

type_synonym vec = "pyfloat list"

text \<open>
  Modelled from the spec: the classes \<^verbatim>\<open>OnePoint\<close> and \<^verbatim>\<open>Collection\<close> of
  \<^verbatim>\<open>cobaya.collection\<close> are not among the sources. A point carries its sampled values,
  its weight, and the cached \<^verbatim>\<open>minuslogpost\<close>, log-prior, log-likelihoods and derived
  parameters. The current point holds its values as an array of the store (so that
  \<^verbatim>\<open>self.current_point[...]\<close> may hand out that very array); a row of the collection
  holds their contents.
\<close>

record 'v point =
  pt_values :: 'v
  weight :: int
  minuslogpost :: pyfloat
  logprior :: "pyfloat option"
  logliks :: "pyfloat list"
  derived :: "pyfloat list"

text \<open>
  Modelled from the spec: the collection is the append-only sequence of stored points;
  \<^verbatim>\<open>out_update\<close> flushes it to durable output, which is the field \<open>flushed\<close>.
\<close>

record collection =
  rows :: "vec point list"
  flushed :: "vec point list"

definition n_rows :: "collection \<Rightarrow> int" where
  "n_rows c = int (length (rows c))"

definition out_update :: "collection \<Rightarrow> collection" where
  "out_update c = c\<lparr>flushed := rows c\<rparr>"

definition increase_weight :: "'v point \<Rightarrow> int \<Rightarrow> 'v point" where
  "increase_weight pt k = pt\<lparr>weight := weight pt + k\<rparr>"

text \<open>
  Modelled from the spec: \<^verbatim>\<open>OnePoint.add(values, derived, weight, logpost, logprior,
  logliks)\<close> installs a point, with weight 1 unless given.
\<close>

definition new_point ::
  "'v \<Rightarrow> pyfloat list \<Rightarrow> int \<Rightarrow> pyfloat \<Rightarrow> pyfloat option \<Rightarrow> pyfloat list \<Rightarrow> 'v point" where
  "new_point v der w logpost lprior lliks =
     \<lparr>pt_values = v, weight = w, minuslogpost = fneg logpost, logprior = lprior,
      logliks = lliks, derived = der\<rparr>"

text \<open>The calls to the external collaborators, in the order they are made.\<close>

datatype call =
    BlockedProposer "nat list list" "int list option" "int option"
  | SetCovariance matrix
  | GetProposal
  | GetProposalSlow
  | GetProposalFast
  | LogPosterior vec
  | Callback

datatype engine = Metropolis | Dragging

text \<open>
  The read-only options of the sampler (attributes of \<^verbatim>\<open>self\<close> that are read from the
  configuration and never assigned).
\<close>

record options =
  burn_in :: int
  max_tries :: int
  max_samples :: pyfloat
  output_every :: int
  callback_function :: bool
  callback_every :: int
  check_every_dimension_times :: int
  learn_proposal :: bool
  learn_proposal_Rminus1_max_early :: pyfloat
  learn_proposal_Rminus1_min :: pyfloat
  Rminus1_stop :: pyfloat
  Rminus1_cl_stop :: pyfloat
  oversample :: bool
  drag_nfast_times :: int
  max_speed_slow :: real
  opt_covmat :: covmat_setting
  opt_covmat_params :: "string list"

text \<open>
  The attributes of \<^verbatim>\<open>self\<close> that the code assigns, with the store, the state \<open>rng\<close>
  of everything random or external (the random generator, the proposer, the other MPI
  processes), and the trace of the calls made. An attribute that may be unset
  (\<^verbatim>\<open>hasattr\<close>) is an option.
\<close>

record 'r mcmc =
  drag_interp_steps :: int
  learn_proposal_Rminus1_max :: pyfloat
  effective_max_samples :: pyfloat
  n_slow :: int
  i_last_slow_block :: "int option"
  oversampling_factors :: "int list option"
  get_new_sample :: engine
  burn_in_left :: int
  collection :: collection
  current_point :: "addr point"
  converged :: bool
  Rminus1_last :: "pyfloat option"
  has_req :: bool
  heap :: "addr \<Rightarrow> vec"
  fresh :: addr
  rng :: 'r
  calls :: "call list"

text \<open>
  What a convergence checkpoint computes from the gathered chains: whether the Cholesky
  decomposition of the normalised mean of covariances succeeds, \<open>R - 1\<close> of the means, the
  largest \<open>R - 1\<close> of the confidence bounds, the mean of covariances and the chain's own
  covariance. The linear algebra itself is outside the model.
\<close>

record checkpoint_stats =
  cholesky_ok :: bool
  Rminus1 :: pyfloat
  Rminus1_cl_max :: pyfloat
  mean_of_covs :: matrix
  own_cov :: matrix

text \<open>
  The external collaborators: the posterior evaluator (a pure function of the point), the
  proposer, the random draws, and MPI. The in-place proposer methods are functions from
  the array's contents to its new contents.
\<close>

record 'r env =
  logposterior :: "vec \<Rightarrow> pyfloat \<times> pyfloat \<times> pyfloat list \<times> pyfloat list"
  get_proposal :: "'r \<Rightarrow> vec \<Rightarrow> vec \<times> 'r"
  get_proposal_slow :: "'r \<Rightarrow> vec \<Rightarrow> vec \<times> 'r"
  get_proposal_fast :: "'r \<Rightarrow> vec \<Rightarrow> vec \<times> 'r"
  exponential :: "'r \<Rightarrow> pyfloat \<times> 'r"
  reference_draw :: "'r \<Rightarrow> vec \<times> 'r"
  blocked_proposer :: "'r \<Rightarrow> nat list list \<Rightarrow> int list option \<Rightarrow> int option \<Rightarrow> 'r"
  set_covariance :: "'r \<Rightarrow> matrix \<Rightarrow> 'r"
  mpi :: bool
  req_test :: "'r \<Rightarrow> bool \<times> 'r"
  gather_stats :: "'r \<Rightarrow> vec point list \<Rightarrow> checkpoint_stats \<times> 'r"

subsection \<open>Arrays, and calls to the collaborators\<close>

text \<open>\<^verbatim>\<open>deepcopy(array)\<close>: a new array with the same contents.\<close>

definition deepcopy :: "addr \<Rightarrow> 'r mcmc \<Rightarrow> addr \<times> 'r mcmc" where
  "deepcopy a st =
     (fresh st, st\<lparr>heap := (heap st)(fresh st := heap st a), fresh := Suc (fresh st)\<rparr>)"

text \<open>\<^verbatim>\<open>array += delta\<close>, element by element.\<close>

definition iadd :: "addr \<Rightarrow> vec \<Rightarrow> 'r mcmc \<Rightarrow> 'r mcmc" where
  "iadd a delta st = st\<lparr>heap := (heap st)(a := map2 fadd (heap st a) delta)\<rparr>"

definition call_get_proposal :: "'r env \<Rightarrow> addr \<Rightarrow> 'r mcmc \<Rightarrow> 'r mcmc" where
  "call_get_proposal env a st =
     (case get_proposal env (rng st) (heap st a) of
        (v, r) \<Rightarrow> st\<lparr>heap := (heap st)(a := v), rng := r, calls := calls st @ [GetProposal]\<rparr>)"

definition call_get_proposal_slow :: "'r env \<Rightarrow> addr \<Rightarrow> 'r mcmc \<Rightarrow> 'r mcmc" where
  "call_get_proposal_slow env a st =
     (case get_proposal_slow env (rng st) (heap st a) of
        (v, r) \<Rightarrow> st\<lparr>heap := (heap st)(a := v), rng := r, calls := calls st @ [GetProposalSlow]\<rparr>)"

text \<open>
  \<^verbatim>\<open>delta_fast = np.zeros(d); self.proposer.get_proposal_fast(delta_fast)\<close>: the step is
  written into a new array of zeros, which nothing else refers to; the model returns its
  contents.
\<close>

definition call_get_proposal_fast :: "'r env \<Rightarrow> nat \<Rightarrow> 'r mcmc \<Rightarrow> vec \<times> 'r mcmc" where
  "call_get_proposal_fast env d st =
     (case get_proposal_fast env (rng st) (replicate d (Finite 0)) of
        (v, r) \<Rightarrow> (v, st\<lparr>rng := r, calls := calls st @ [GetProposalFast]\<rparr>))"

definition call_logposterior ::
  "'r env \<Rightarrow> addr \<Rightarrow> 'r mcmc
     \<Rightarrow> (pyfloat \<times> pyfloat \<times> pyfloat list \<times> pyfloat list) \<times> 'r mcmc" where
  "call_logposterior env a st =
     (logposterior env (heap st a), st\<lparr>calls := calls st @ [LogPosterior (heap st a)]\<rparr>)"

definition call_metropolis_accept ::
  "'r env \<Rightarrow> pyfloat \<Rightarrow> pyfloat \<Rightarrow> 'r mcmc \<Rightarrow> bool \<times> 'r mcmc" where
  "call_metropolis_accept env logp_trial logp_current st =
     (case metropolis_accept (exponential env) logp_trial logp_current (rng st) of
        (accept, r) \<Rightarrow> (accept, st\<lparr>rng := r\<rparr>))"

text \<open>
  Modelled from the spec: \<^verbatim>\<open>self.current_point.add_to_collection(self.collection)\<close>
  appends the current point, with its accumulated weight, to the collection.
\<close>

definition snapshot :: "(addr \<Rightarrow> vec) \<Rightarrow> addr point \<Rightarrow> vec point" where
  "snapshot h pt =
     \<lparr>pt_values = h (pt_values pt), weight = weight pt, minuslogpost = minuslogpost pt,
      logprior = logprior pt, logliks = logliks pt, derived = derived pt\<rparr>"

definition add_to_collection :: "'r mcmc \<Rightarrow> 'r mcmc" where
  "add_to_collection st =
     st\<lparr>collection := (collection st)
          \<lparr>rows := rows (collection st) @ [snapshot (heap st) (current_point st)]\<rparr>\<rparr>"

text \<open>\<^verbatim>\<open>n(self)\<close>, without the burn-in steps.\<close>

definition mcmc_n :: "'r mcmc \<Rightarrow> int" where
  "mcmc_n st = n_rows (collection st)"

section \<open>Processing an acceptance or a rejection\<close>

text \<open>
  \<^verbatim>\<open>process_accept_or_reject(self, accept_state, trial, derived, logpost_trial,
  logprior_trial, logliks_trial)\<close>. The result is the exception raised, if any, and the
  state the method leaves. \<^verbatim>\<open>self.n() % self.output_every\<close> raises for a zero
  \<open>output_every\<close>.
\<close>

definition process_accept_or_reject ::
  "options \<Rightarrow> bool \<Rightarrow> addr \<Rightarrow> pyfloat list \<Rightarrow> pyfloat \<Rightarrow> pyfloat option \<Rightarrow> pyfloat list
     \<Rightarrow> 'r mcmc \<Rightarrow> error option \<times> 'r mcmc" where
  "process_accept_or_reject opts accept_state trial der logpost_trial logprior_trial
       logliks_trial st =
     (if accept_state then
        (case (if burn_in_left st \<le> 0 then
                 (let st1 = add_to_collection st
                  in if output_every opts = 0 then (Some ZeroDivisionError, st1)
                     else if mcmc_n st1 mod output_every opts = 0
                       then (None, st1\<lparr>collection := out_update (collection st1)\<rparr>)
                     else (None, st1))
               else (None, st\<lparr>burn_in_left := burn_in_left st - 1\<rparr>)) of
           (Some e, st2) \<Rightarrow> (Some e, st2)
         | (None, st2) \<Rightarrow>
             (None, st2\<lparr>current_point :=
                          new_point trial der 1 logpost_trial logprior_trial logliks_trial\<rparr>))
      else
        (let st1 = st\<lparr>current_point := increase_weight (current_point st) 1\<rparr>
         in if weight (current_point st1) > max_tries opts
            then (Some HandledException, st1\<lparr>collection := out_update (collection st1)\<rparr>)
            else (None, st1)))"

section \<open>The Metropolis engine\<close>

text \<open>
  \<^verbatim>\<open>get_new_sample_metropolis(self)\<close>. \<^verbatim>\<open>self.current_point[...]\<close> is taken to hand
  out the point's own array, the case in which the \<^verbatim>\<open>deepcopy\<close> matters. The result is
  the value returned or the exception raised, and the state left.
\<close>

definition get_new_sample_metropolis ::
  "'r env \<Rightarrow> options \<Rightarrow> 'r mcmc \<Rightarrow> (error + bool) \<times> 'r mcmc" where
  "get_new_sample_metropolis env opts st =
     (case deepcopy (pt_values (current_point st)) st of
        (trial, st1) \<Rightarrow>
     (case call_logposterior env trial (call_get_proposal env trial st1) of
        ((logpost_trial, logprior_trial, logliks_trial, der), st3) \<Rightarrow>
     (case call_metropolis_accept env logpost_trial
             (fneg (minuslogpost (current_point st3))) st3 of
        (accept, st4) \<Rightarrow>
     (case process_accept_or_reject opts accept trial der logpost_trial
             (Some logprior_trial) logliks_trial st4 of
        (Some e, st5) \<Rightarrow> (Inl e, st5)
      | (None, st5) \<Rightarrow> (Inr accept, st5)))))"

section \<open>The dragging engine\<close>

text \<open>
  The local variables of \<^verbatim>\<open>get_new_sample_dragging\<close> that the interpolation loop
  reads and assigns: the two trackers with their cached values (the derived parameters are
  the local \<^verbatim>\<open>derived\<close>) and the two accumulators.
\<close>

record drag =
  current_start_point :: addr
  current_end_point :: addr
  current_start_logpost :: pyfloat
  current_end_logpost :: pyfloat
  current_end_logprior :: "pyfloat option"
  current_end_logliks :: "pyfloat list"
  drag_derived :: "pyfloat list"
  start_drag_logpost_acc :: pyfloat
  end_drag_logpost_acc :: pyfloat

text \<open>
  \<^verbatim>\<open>(1-frac)*start + frac*end\<close> with \<^verbatim>\<open>frac = i_step / (1 + self.drag_interp_steps)\<close>
  (true division of two integers).
\<close>

definition interp_logpost :: "int \<Rightarrow> int \<Rightarrow> pyfloat \<Rightarrow> pyfloat \<Rightarrow> pyfloat" where
  "interp_logpost i_step steps logpost_start logpost_end =
     (let frac = fdiv (Finite (real_of_int i_step)) (Finite (real_of_int (1 + steps)))
      in fadd (fmul (fsub (Finite 1) frac) logpost_start) (fmul frac logpost_end))"

text \<open>
  One pass through the body of the loop \<^verbatim>\<open>for i_step in range(1, 1+self.drag_interp_steps)\<close>
  (lines 470--513). The end point is evaluated only when the start point's log-posterior
  is above minus infinity; otherwise its values are \<^verbatim>\<open>(-np.inf, None, [], [])\<close>.
\<close>

definition drag_step ::
  "'r env \<Rightarrow> int \<Rightarrow> drag \<times> 'r mcmc \<Rightarrow> int \<Rightarrow> drag \<times> 'r mcmc" where
  "drag_step env steps s i_step =
     (case s of (l, st) \<Rightarrow>
     (case call_get_proposal_fast env (length (heap st (current_start_point l))) st of
        (delta_fast, st1) \<Rightarrow>
     (case deepcopy (current_start_point l) st1 of
        (proposal_start_point, st2) \<Rightarrow>
     (case deepcopy (current_end_point l) (iadd proposal_start_point delta_fast st2) of
        (proposal_end_point, st3) \<Rightarrow>
     (case call_logposterior env proposal_start_point
             (iadd proposal_end_point delta_fast st3) of
        ((proposal_start_logpost, _), st4) \<Rightarrow>
     (case (if fgt proposal_start_logpost MinusInf
            then (case call_logposterior env proposal_end_point st4 of
                    ((lp, lprior, lliks, der), st5) \<Rightarrow> ((lp, Some lprior, lliks, der), st5))
            else ((MinusInf, None, [], []), st4)) of
        ((proposal_end_logpost, proposal_end_logprior, proposal_end_logliks,
          derived_proposal_end), st5) \<Rightarrow>
     (case (if fgt proposal_start_logpost MinusInf \<and> fgt proposal_end_logpost MinusInf
            then call_metropolis_accept env
                   (interp_logpost i_step steps proposal_start_logpost proposal_end_logpost)
                   (interp_logpost i_step steps (current_start_logpost l)
                      (current_end_logpost l)) st5
            else (False, st5)) of
        (accept_drag, st6) \<Rightarrow>
     (let l1 = (if accept_drag
                then l\<lparr>current_start_point := proposal_start_point,
                       current_start_logpost := proposal_start_logpost,
                       current_end_point := proposal_end_point,
                       current_end_logpost := proposal_end_logpost,
                       current_end_logprior := proposal_end_logprior,
                       current_end_logliks := proposal_end_logliks,
                       drag_derived := derived_proposal_end\<rparr>
                else l)
      in (l1\<lparr>start_drag_logpost_acc :=
                 fadd (start_drag_logpost_acc l1) (current_start_logpost l1),
               end_drag_logpost_acc :=
                 fadd (end_drag_logpost_acc l1) (current_end_logpost l1)\<rparr>,
          st6)))))))))"

text \<open>
  The loop over \<^verbatim>\<open>range(1, 1+self.drag_interp_steps)\<close>, and the states it goes
  through: the locals and the sampler after each sub-step.
\<close>

definition drag_loop :: "'r env \<Rightarrow> int \<Rightarrow> drag \<times> 'r mcmc \<Rightarrow> drag \<times> 'r mcmc" where
  "drag_loop env steps s = foldl (drag_step env steps) s [1..steps]"

fun drag_states ::
  "'r env \<Rightarrow> int \<Rightarrow> drag \<times> 'r mcmc \<Rightarrow> int list \<Rightarrow> (drag \<times> 'r mcmc) list" where
  "drag_states env steps s [] = []"
| "drag_states env steps s (i # is) =
     drag_step env steps s i # drag_states env steps (drag_step env steps s i) is"

text \<open>
  Lines 443--467: the slow proposal, with its early rejection, up to the initial values of
  the trackers and accumulators. The result is \<open>None\<close> on the early rejection.
\<close>

definition drag_begin :: "'r env \<Rightarrow> 'r mcmc \<Rightarrow> drag option \<times> 'r mcmc" where
  "drag_begin env st =
     (let start_slow_point = pt_values (current_point st);
          start_slow_logpost = fneg (minuslogpost (current_point st))
      in case deepcopy start_slow_point st of
           (end_slow_point, st1) \<Rightarrow>
         (case call_logposterior env end_slow_point
                 (call_get_proposal_slow env end_slow_point st1) of
            ((end_slow_logpost, end_slow_logprior, end_slow_logliks, der), st3) \<Rightarrow>
              if feq end_slow_logpost MinusInf
              then (None, st3\<lparr>current_point := increase_weight (current_point st3) 1\<rparr>)
              else (Some \<lparr>current_start_point = start_slow_point,
                          current_end_point = end_slow_point,
                          current_start_logpost = start_slow_logpost,
                          current_end_logpost = end_slow_logpost,
                          current_end_logprior = Some end_slow_logprior,
                          current_end_logliks = end_slow_logliks,
                          drag_derived = der,
                          start_drag_logpost_acc = start_slow_logpost,
                          end_drag_logpost_acc = end_slow_logpost\<rparr>, st3)))"

text \<open>
  \<^verbatim>\<open>get_new_sample_dragging(self)\<close>. The accumulators are divided by
  \<^verbatim>\<open>self.drag_interp_steps\<close> with numpy's division.
\<close>

definition get_new_sample_dragging ::
  "'r env \<Rightarrow> options \<Rightarrow> 'r mcmc \<Rightarrow> (error + bool) \<times> 'r mcmc" where
  "get_new_sample_dragging env opts st =
     (case drag_begin env st of
        (None, st3) \<Rightarrow> (Inr False, st3)
      | (Some l0, st3) \<Rightarrow>
     (case drag_loop env (drag_interp_steps st3) (l0, st3) of
        (l, st4) \<Rightarrow>
     (case call_metropolis_accept env
             (fdiv (end_drag_logpost_acc l) (Finite (real_of_int (drag_interp_steps st4))))
             (fdiv (start_drag_logpost_acc l) (Finite (real_of_int (drag_interp_steps st4))))
             st4 of
        (accept, st5) \<Rightarrow>
     (case process_accept_or_reject opts accept (current_end_point l) (drag_derived l)
             (current_end_logpost l) (current_end_logprior l) (current_end_logliks l) st5 of
        (Some e, st6) \<Rightarrow> (Inl e, st6)
      | (None, st6) \<Rightarrow> (Inr accept, st6)))))"

section \<open>Convergence checkpoints\<close>

text \<open>Python's \<^verbatim>\<open>a < b\<close> on floats, and the built-in \<^verbatim>\<open>max(a, b)\<close>.\<close>

definition flt :: "pyfloat \<Rightarrow> pyfloat \<Rightarrow> bool" where
  "flt a b = fgt b a"

definition pymax :: "pyfloat \<Rightarrow> pyfloat \<Rightarrow> pyfloat" where
  "pymax a b = (if fgt b a then b else a)"

text \<open>
  \<^verbatim>\<open>check_all_ready(self)\<close>. \<open>has_req\<close> is \<^verbatim>\<open>hasattr(self, "req")\<close>, the pending
  non-blocking gather, and \<open>req_test\<close> its \<^verbatim>\<open>Test()\<close>. The modulus raises for a zero
  divisor.
\<close>

definition check_all_ready :: "'r env \<Rightarrow> options \<Rightarrow> 'r mcmc \<Rightarrow> (error + bool) \<times> 'r mcmc" where
  "check_all_ready env opts st =
     (let poll = (\<lambda>st1. if has_req st1
                         then (case req_test env (rng st1) of
                                 (all_ready, r) \<Rightarrow>
                                   if all_ready then (Inr True, st1\<lparr>has_req := False, rng := r\<rparr>)
                                   else (Inr False, st1\<lparr>rng := r\<rparr>))
                         else (Inr False, st1))
      in if mcmc_n st > 0 \<and> weight (current_point st) = 1
         then (if check_every_dimension_times opts * n_slow st = 0
               then (Inl ZeroDivisionError, st)
               else if mcmc_n st mod (check_every_dimension_times opts * n_slow st) = 0
                 then (if \<not> mpi env then (Inr True, st) else poll (st\<lparr>has_req := True\<rparr>))
               else poll st)
         else poll st)"

text \<open>
  \<^verbatim>\<open>check_convergence_and_learn_proposal(self)\<close>. The statistics of the checkpoint come
  from \<open>gather_stats\<close>; what rank 0 computes and broadcasts is what every process then
  holds, so the model follows one process. \<open>Rminus1_last\<close> is an attribute that is unset
  until a checkpoint succeeds: \<^verbatim>\<open>getattr(self, "Rminus1_last", np.inf)\<close> reads it with a
  default, \<^verbatim>\<open>self.Rminus1_last\<close> raises \<open>AttributeError\<close> while it is unset.
\<close>

definition check_convergence_and_learn_proposal ::
  "'r env \<Rightarrow> options \<Rightarrow> 'r mcmc \<Rightarrow> error option \<times> 'r mcmc" where
  "check_convergence_and_learn_proposal env opts st =
     (case gather_stats env (rng st) (rows (collection st)) of
        (stats, r) \<Rightarrow>
     (let st0 = st\<lparr>rng := r\<rparr>;
          st1 =
            (if mpi env then
               (if \<not> cholesky_ok stats then st0
                else st0\<lparr>Rminus1_last := Some (Rminus1 stats),
                         converged :=
                           (if flt (pymax (Rminus1 stats)
                                      (case Rminus1_last st0 of None \<Rightarrow> PlusInf | Some x \<Rightarrow> x))
                                   (Rminus1_stop opts)
                               \<and> flt (Rminus1_cl_max stats) (Rminus1_cl_stop opts)
                            then True else converged st0)\<rparr>)
             else st0)
      in if learn_proposal opts \<and> \<not> converged st1 then
           (if mpi env then
              (case Rminus1_last st1 of
                 None \<Rightarrow> (Some AttributeError, st1)
               | Some r_last \<Rightarrow>
                   if \<not> (fgt (learn_proposal_Rminus1_max st1) r_last
                          \<and> fgt r_last (learn_proposal_Rminus1_min opts))
                   then (None, st1)
                   else (None, st1\<lparr>rng := set_covariance env (rng st1) (mean_of_covs stats),
                                  calls := calls st1 @ [SetCovariance (mean_of_covs stats)]\<rparr>))
            else (None, st1\<lparr>rng := set_covariance env (rng st1) (own_cov stats),
                           calls := calls st1 @ [SetCovariance (own_cov stats)]\<rparr>))
         else (None, st1)))"

section \<open>The chain driver\<close>

text \<open>
  Modelled from the spec: \<^verbatim>\<open>self.prior.reference(max_tries)\<close> belongs to the prior
  object, which is not among the sources. The specification: draw an initial point from
  the reference distribution, and retry up to \<open>max_tries\<close> if the draw has non-finite
  posterior. The specification does not say what happens when every try fails; the model
  raises, so that no point is returned.
\<close>

fun reference :: "'r env \<Rightarrow> nat \<Rightarrow> 'r \<Rightarrow> (error + vec) \<times> 'r" where
  "reference env 0 r = (Inl HandledException, r)"
| "reference env (Suc k) r =
     (case reference_draw env r of
        (x, r') \<Rightarrow> if isfinite (fst (logposterior env x)) then (Inr x, r')
                   else reference env k r')"

text \<open>The callback of the main loop (lines 392--395); the user's function is a call.\<close>

definition callback_step :: "options \<Rightarrow> 'r mcmc \<Rightarrow> error option \<times> 'r mcmc" where
  "callback_step opts st =
     (if callback_function opts then
        (if callback_every opts = 0 then (Some ZeroDivisionError, st)
         else if max (mcmc_n st) 1 mod callback_every opts = 0 \<and> weight (current_point st) = 1
           then (None, st\<lparr>calls := calls st @ [Callback]\<rparr>)
         else (None, st))
      else (None, st))"

text \<open>\<^verbatim>\<open>self.get_new_sample()\<close>: the engine chosen by \<^verbatim>\<open>initialise\<close>.\<close>

definition call_get_new_sample ::
  "'r env \<Rightarrow> options \<Rightarrow> 'r mcmc \<Rightarrow> (error + bool) \<times> 'r mcmc" where
  "call_get_new_sample env opts st =
     (case get_new_sample st of
        Metropolis \<Rightarrow> get_new_sample_metropolis env opts st
      | Dragging \<Rightarrow> get_new_sample_dragging env opts st)"

text \<open>The body of the main loop of \<^verbatim>\<open>run\<close> (lines 390--398).\<close>

definition loop_body :: "'r env \<Rightarrow> options \<Rightarrow> 'r mcmc \<Rightarrow> error option \<times> 'r mcmc" where
  "loop_body env opts st =
     (case call_get_new_sample env opts st of
        (Inl e, st1) \<Rightarrow> (Some e, st1)
      | (Inr accept, st1) \<Rightarrow>
     (case callback_step opts st1 of
        (Some e, st2) \<Rightarrow> (Some e, st2)
      | (None, st2) \<Rightarrow>
     (case check_all_ready env opts st2 of
        (Inl e, st3) \<Rightarrow> (Some e, st3)
      | (Inr ready, st3) \<Rightarrow>
          if ready then check_convergence_and_learn_proposal env opts st3
          else (None, st3))))"

text \<open>
  The main loop \<^verbatim>\<open>while self.n() < self.effective_max_samples and not self.converged\<close>.
  Nothing bounds the number of its iterations, so the model runs it on fuel: the result
  says whether the loop finished, raised, or was still running when the fuel ran out, and
  gives the state reached.
\<close>

datatype status = Finished | Raised error | Running

fun run_loop :: "'r env \<Rightarrow> options \<Rightarrow> nat \<Rightarrow> 'r mcmc \<Rightarrow> status \<times> 'r mcmc" where
  "run_loop env opts fuel st =
     (if flt (Finite (real_of_int (mcmc_n st))) (effective_max_samples st) \<and> \<not> converged st
      then (case fuel of
              0 \<Rightarrow> (Running, st)
            | Suc k \<Rightarrow>
                (case loop_body env opts st of
                   (Some e, st') \<Rightarrow> (Raised e, st')
                 | (None, st') \<Rightarrow> run_loop env opts k st'))
      else (Finished, st))"

text \<open>
  Lines 382--385 of \<^verbatim>\<open>run\<close>: the initial point is drawn, evaluated and seated as the
  current point, unconditionally.
\<close>

definition seat_initial_point :: "'r env \<Rightarrow> options \<Rightarrow> 'r mcmc \<Rightarrow> error option \<times> 'r mcmc" where
  "seat_initial_point env opts st =
     (case reference env (nat (max_tries opts)) (rng st) of
        (Inl e, r) \<Rightarrow> (Some e, st\<lparr>rng := r\<rparr>)
      | (Inr x, r) \<Rightarrow>
          (let initial_point = fresh st;
               st1 = st\<lparr>heap := (heap st)(initial_point := x), fresh := Suc (fresh st),
                        rng := r\<rparr>
           in case call_logposterior env initial_point st1 of
                ((logpost, _, _, der), st2) \<Rightarrow>
                  (None, st2\<lparr>current_point := new_point initial_point der 1 logpost None []\<rparr>)))"

text \<open>\<^verbatim>\<open>run(self)\<close>.\<close>

definition run :: "'r env \<Rightarrow> options \<Rightarrow> nat \<Rightarrow> 'r mcmc \<Rightarrow> status \<times> 'r mcmc" where
  "run env opts fuel st =
     (case seat_initial_point env opts st of
        (Some e, st1) \<Rightarrow> (Raised e, st1)
      | (None, st1) \<Rightarrow>
          (case run_loop env opts fuel (st1\<lparr>converged := False\<rparr>) of
             (Finished, st2) \<Rightarrow> (Finished, st2\<lparr>collection := out_update (collection st2)\<rparr>)
           | other \<Rightarrow> other))"

section \<open>Initialisation\<close>

text \<open>\<^verbatim>\<open>np.round\<close>: to the nearest integer, a half to the even neighbour.\<close>

definition np_round :: "real \<Rightarrow> int" where
  "np_round x =
     (let f = \<lfloor>x\<rfloor>; d = x - of_int f
      in if d < 1 / 2 then f else if 1 / 2 < d then f + 1 else if even f then f else f + 1)"

text \<open>
  Modelled from the spec: the \<^verbatim>\<open>OnePoint\<close> that \<^verbatim>\<open>initialise\<close> creates holds no point
  until \<^verbatim>\<open>run\<close> adds one; the placeholder stands for it.
\<close>

definition empty_point :: "addr point" where
  "empty_point = new_point 0 [] 0 NaN None []"

definition empty_collection :: collection where
  "empty_collection = \<lparr>rows = [], flushed = []\<rparr>"

text \<open>
  Lines 216--255 of \<^verbatim>\<open>initialise\<close>: the choice of the sampling mode from the speeds and
  the blocks of parameter indices. A zero \<open>drag_interp_steps\<close> or \<open>drag_nfast_times\<close> is
  falsy in Python, and \<open>drag_nfast_times\<close> is an integer, so that rounding its product
  with the number of fast parameters leaves it as it is.
\<close>

definition choose_mode ::
  "options \<Rightarrow> real list \<Rightarrow> nat list list \<Rightarrow> nat \<Rightarrow> 'r mcmc \<Rightarrow> error + 'r mcmc" where
  "choose_mode opts speeds blocks d st =
     (if oversample opts \<and> (drag_nfast_times opts \<noteq> 0 \<or> drag_interp_steps st \<noteq> 0)
      then Inl HandledException
      else if oversample opts then
        (if hd speeds = 0 then Inl ZeroDivisionError
         else
           let factors = map (\<lambda>s. np_round (s / hd speeds)) speeds
           in if length (remdups factors) = 1 then Inl HandledException
              else if d = 0 then Inl ZeroDivisionError
              else Inr (st\<lparr>oversampling_factors := Some factors,
                          effective_max_samples :=
                            Finite (real_of_int
                                      (sum_list (map (\<lambda>(b, f). int (length b) * f)
                                                   (zip blocks factors)))
                                    / real d),
                          n_slow := int (length (hd blocks))\<rparr>))
      else if drag_interp_steps st \<noteq> 0 \<or> drag_nfast_times opts \<noteq> 0 then
        (if length (remdups speeds) = 1 then Inl HandledException
         else if drag_nfast_times opts \<noteq> 0 \<and> drag_interp_steps st \<noteq> 0
           then Inl HandledException
         else if max_speed_slow opts < Min (set speeds) \<or> Max (set speeds) \<le> max_speed_slow opts
           then Inl HandledException
         else
           let n_slow_blocks = length (takeWhile (\<lambda>speed. \<not> max_speed_slow opts < speed) speeds);
               fast_params = concat (drop n_slow_blocks blocks)
           in Inr (st\<lparr>i_last_slow_block := Some (int n_slow_blocks - 1),
                       effective_max_samples := max_samples opts,
                       n_slow := int (length (concat (take n_slow_blocks blocks))),
                       drag_interp_steps :=
                         (if drag_nfast_times opts \<noteq> 0
                          then drag_nfast_times opts * int (length fast_params)
                          else drag_interp_steps st),
                       get_new_sample := Dragging\<rparr>))
      else Inr (st\<lparr>effective_max_samples := max_samples opts, n_slow := int d\<rparr>))"

text \<open>
  \<^verbatim>\<open>initialise(self)\<close>. \<open>speeds_of_params\<close> is the ordered dictionary
  \<^verbatim>\<open>self.likelihood.speeds_of_params()\<close>, from each speed to its parameters, and
  \<open>sampled_params\<close> the one of the sampled parameters, both as lists of items. A block's
  parameter that is not sampled makes \<^verbatim>\<open>index\<close> raise \<open>ValueError\<close>, like unpacking
  the items of an empty dictionary.
\<close>

definition initialise ::
  "'r env \<Rightarrow> (string \<Rightarrow> (string \<times> matrix) option) \<Rightarrow> (matrix \<Rightarrow> bool) \<Rightarrow> options
     \<Rightarrow> (real \<times> string list) list \<Rightarrow> (string \<times> param_info) list \<Rightarrow> 'r mcmc
     \<Rightarrow> error + 'r mcmc" where
  "initialise env read_file eigvals_positive opts speeds_of_params sampled_params st =
     (let st0 = st\<lparr>burn_in_left := burn_in opts + 1, collection := empty_collection,
                   current_point := empty_point, get_new_sample := Metropolis\<rparr>;
          keys = map fst sampled_params
      in if speeds_of_params = [] then Inl ValueError
         else if \<not> list_all (\<lambda>(speed, b). list_all (\<lambda>p. p \<in> set keys) b) speeds_of_params
           then Inl ValueError
         else
           let speeds = map fst speeds_of_params;
               blocks = map (\<lambda>(speed, b). map (index keys) b) speeds_of_params
           in case choose_mode opts speeds blocks (length sampled_params) st0 of
                Inl e \<Rightarrow> Inl e
              | Inr st1 \<Rightarrow>
                  (let r1 = blocked_proposer env (rng st1) blocks (oversampling_factors st1)
                              (i_last_slow_block st1)
                   in case initial_proposal_covmat read_file eigvals_positive sampled_params
                             (opt_covmat opts) (opt_covmat_params opts)
                             (learn_proposal_Rminus1_max st1)
                             (learn_proposal_Rminus1_max_early opts) of
                        (Inl e, threshold) \<Rightarrow> Inl e
                      | (Inr m, threshold) \<Rightarrow>
                          Inr (st1\<lparr>learn_proposal_Rminus1_max := threshold,
                                   rng := set_covariance env r1 m,
                                   calls := calls st1 @
                                     [BlockedProposer blocks (oversampling_factors st1)
                                        (i_last_slow_block st1),
                                      SetCovariance m]\<rparr>)))"

section \<open>Ghost quantities and example inputs for the engines\<close>

text \<open>
  The sum of the weights of the points stored in the collection plus the weight of the
  current point.
\<close>

definition total_weight :: "'r mcmc \<Rightarrow> int" where
  "total_weight st = sum_list (map weight (rows (collection st))) + weight (current_point st)"

text \<open>
  \<open>k\<close> passes through the body of the main loop, stopping at the first exception: the
  proposals the driver processes, whatever the loop condition says in between.
\<close>

fun iterations :: "'r env \<Rightarrow> options \<Rightarrow> nat \<Rightarrow> 'r mcmc \<Rightarrow> error option \<times> 'r mcmc" where
  "iterations env opts 0 st = (None, st)"
| "iterations env opts (Suc k) st =
     (case loop_body env opts st of
        (Some e, st') \<Rightarrow> (Some e, st')
      | (None, st') \<Rightarrow> iterations env opts k st')"

text \<open>
  The weights of the points that the accepted proposals of those passes replace, in the
  order of the passes: a pass whose engine returns \<^verbatim>\<open>True\<close> replaces the current point,
  which leaves with the weight it has when the pass begins.
\<close>

fun replaced_weights :: "'r env \<Rightarrow> options \<Rightarrow> nat \<Rightarrow> 'r mcmc \<Rightarrow> int list" where
  "replaced_weights env opts 0 st = []"
| "replaced_weights env opts (Suc k) st =
     (case loop_body env opts st of
        (Some e, st') \<Rightarrow> []
      | (None, st') \<Rightarrow>
          (if fst (call_get_new_sample env opts st) = Inr True
           then [weight (current_point st)] else [])
          @ replaced_weights env opts k st')"

text \<open>
  The account of one proposal that leaves \<open>st'\<close> from \<open>st\<close>, accepted or not: it adds one
  to the sum of the weights, except that an acceptance while the countdown
  \<open>burn_in_left\<close> is positive drops the outgoing point and decrements the countdown.
\<close>

definition accounted :: "bool \<Rightarrow> 'r mcmc \<Rightarrow> 'r mcmc \<Rightarrow> bool" where
  "accounted accept st st' \<longleftrightarrow>
     total_weight st' + (if accept \<and> 0 < burn_in_left st then weight (current_point st) else 0)
       = total_weight st + 1
     \<and> burn_in_left st'
       = (if accept \<and> 0 < burn_in_left st then burn_in_left st - 1 else burn_in_left st)"

text \<open>
  A toy posterior on two parameters \<open>(x, y)\<close>: the log-posterior is \<open>-(x + y)\<close> for
  \<open>0 \<le> x \<le> 5\<close>, minus infinity for \<open>x < 0\<close> and plus infinity for \<open>x > 5\<close>.
\<close>

definition toy_logposterior :: "vec \<Rightarrow> pyfloat \<times> pyfloat \<times> pyfloat list \<times> pyfloat list" where
  "toy_logposterior v =
     (case v of
        [Finite x, Finite y] \<Rightarrow>
          (if x > 5 then PlusInf else if x < 0 then MinusInf else Finite (- (x + y)),
           Finite 0,
           [if x > 5 then PlusInf else if x < 0 then MinusInf else Finite (- (x + y))],
           [Finite (x + y)])
      | _ \<Rightarrow> (NaN, NaN, [], []))"

definition no_stats :: checkpoint_stats where
  "no_stats = \<lparr>cholesky_ok = False, Rminus1 = NaN, Rminus1_cl_max = NaN,
               mean_of_covs = [], own_cov = []\<rparr>"

text \<open>
  A deterministic environment around it: the slow and the full proposal shift \<open>x\<close> by
  \<open>dx\<close>, the fast proposal is the step \<open>(0, dy)\<close>, every exponential draw is \<open>e\<close>, the
  reference draw is the point \<open>(1, 1)\<close>, and the state of the random source counts the
  draws. Every checkpoint's Cholesky decomposition fails.
\<close>

definition shift_x :: "real \<Rightarrow> vec \<Rightarrow> vec" where
  "shift_x dx v = (case v of x # ys \<Rightarrow> fadd x (Finite dx) # ys | [] \<Rightarrow> [])"

definition toy_env :: "real \<Rightarrow> real \<Rightarrow> real \<Rightarrow> bool \<Rightarrow> nat env" where
  "toy_env dx dy e use_mpi =
     \<lparr>logposterior = toy_logposterior,
      get_proposal = (\<lambda>r v. (shift_x dx v, Suc r)),
      get_proposal_slow = (\<lambda>r v. (shift_x dx v, Suc r)),
      get_proposal_fast = (\<lambda>r v. ([Finite 0, Finite dy], Suc r)),
      exponential = (\<lambda>r. (Finite e, Suc r)),
      reference_draw = (\<lambda>r. ([Finite 1, Finite 1], Suc r)),
      blocked_proposer = (\<lambda>r blocks factors i_last. r),
      set_covariance = (\<lambda>r m. r),
      mpi = use_mpi,
      req_test = (\<lambda>r. (True, r)),
      gather_stats = (\<lambda>r rs. (no_stats, r))\<rparr>"

definition toy_options :: options where
  "toy_options =
     \<lparr>burn_in = 0, max_tries = 3, max_samples = Finite 10, output_every = 1,
      callback_function = False, callback_every = 1, check_every_dimension_times = 1,
      learn_proposal = True, learn_proposal_Rminus1_max_early = Finite 30,
      learn_proposal_Rminus1_min = Finite 0, Rminus1_stop = Finite (1 / 100),
      Rminus1_cl_stop = Finite (2 / 10), oversample = False, drag_nfast_times = 0,
      max_speed_slow = 1, opt_covmat = NoCovmat, opt_covmat_params = []\<rparr>"

text \<open>
  A sampler whose current point \<open>(1, 1)\<close>, of log-posterior \<open>-2\<close> and weight \<open>w\<close>, sits in
  array 0, with the collection \<open>c\<close>.
\<close>

definition toy_mcmc :: "engine \<Rightarrow> int \<Rightarrow> int \<Rightarrow> int \<Rightarrow> collection \<Rightarrow> nat mcmc" where
  "toy_mcmc eng steps w left c =
     \<lparr>drag_interp_steps = steps, learn_proposal_Rminus1_max = Finite 2,
      effective_max_samples = Finite 10, n_slow = 1, i_last_slow_block = None,
      oversampling_factors = None, get_new_sample = eng, burn_in_left = left,
      collection = c,
      current_point = new_point 0 [Finite 2] w (Finite (- 2)) (Some (Finite 0)) [Finite (- 2)],
      converged = False, Rminus1_last = None, has_req = False,
      heap = (\<lambda>a. [])(0 := [Finite 1, Finite 1]), fresh = 1, rng = 0, calls = []\<rparr>"

definition no_rows :: collection where
  "no_rows = \<lparr>rows = [], flushed = []\<rparr>"

definition one_row :: collection where
  "one_row =
     \<lparr>rows = [new_point [Finite 2, Finite 2] [Finite 4] 2 (Finite (- 4)) (Some (Finite 0))
               [Finite (- 4)]],
      flushed = []\<rparr>"

text \<open>
  What an engine step leaves alone before it processes the acceptance: \<open>st'\<close> differs
  from \<open>st\<close> at most in the store, where arrays have been added, in the random source
  and in the trace of calls; every array that existed before has kept its contents.
\<close>

definition frame :: "'r mcmc \<Rightarrow> 'r mcmc \<Rightarrow> bool" where
  "frame st st' \<longleftrightarrow>
     st'\<lparr>heap := heap st, fresh := fresh st, rng := rng st, calls := calls st\<rparr> = st \<and>
     fresh st \<le> fresh st' \<and> (\<forall>a < fresh st. heap st' a = heap st a)"

text \<open>
  Two parameters of the toy posterior in two blocks of speeds 1 and 2, and the sampler as
  it is configured before \<^verbatim>\<open>initialise\<close>, with \<open>steps\<close> for \<open>drag_interp_steps\<close>.
\<close>

definition toy_speeds :: "(real \<times> string list) list" where
  "toy_speeds = [(1, [''x'']), (2, [''y''])]"

definition toy_params :: "(string \<times> param_info) list" where
  "toy_params =
     [(''x'', \<lparr>proposal = Some (Finite 1), ref_variance = None, prior_variance = Finite 4\<rparr>),
      (''y'', \<lparr>proposal = None, ref_variance = Some (Finite 1), prior_variance = Finite 4\<rparr>)]"

definition configured :: "int \<Rightarrow> nat mcmc" where
  "configured steps =
     \<lparr>drag_interp_steps = steps, learn_proposal_Rminus1_max = Finite 2,
      effective_max_samples = NaN, n_slow = 0, i_last_slow_block = None,
      oversampling_factors = None, get_new_sample = Metropolis, burn_in_left = 0,
      collection = empty_collection, current_point = empty_point,
      converged = False, Rminus1_last = None, has_req = False,
      heap = (\<lambda>a. []), fresh = 0, rng = 0, calls = []\<rparr>"

text \<open>
  The same environment, without MPI, at a call of the full proposal in which the
  round-robin schedule selects the fast block: the step \<open>(0, dy)\<close>.
\<close>

definition toy_env_full :: "real \<Rightarrow> real \<Rightarrow> real \<Rightarrow> nat env" where
  "toy_env_full dx dy e =
     (toy_env dx dy e False)\<lparr>get_proposal := (\<lambda>r v. (map2 fadd v [Finite 0, Finite dy], Suc r))\<rparr>"

section \<open>Properties of the acceptance test\<close>

lemma fneg_fneg: "fneg (fneg a) = a"
  by (cases a) simp_all

lemma feq_MinusInf: "feq a MinusInf \<longleftrightarrow> a = MinusInf"
  by (cases a) simp_all

lemma fgt_not_nan_left: "fgt a b \<Longrightarrow> a \<noteq> NaN"
  by (cases a) simp_all

lemma fgt_not_minusinf_left: "fgt a b \<Longrightarrow> a \<noteq> MinusInf"
  by (cases a; cases b) simp_all

lemma fgt_sub_nan: "\<not> fgt e (fsub c NaN)"
  by (cases e; cases c) (simp_all add: fsub_def)

lemma metropolis_accept_rejects_nan:
  "fst (metropolis_accept ex NaN c r) = False"
  by (simp add: metropolis_accept_def fgt_sub_nan split: prod.split)

lemma metropolis_accept_not_nan:
  "fst (metropolis_accept ex t c r) \<Longrightarrow> t \<noteq> NaN"
  using metropolis_accept_rejects_nan [of ex c r] by auto

lemma metropolis_accept_not_minusinf:
  "fst (metropolis_accept ex t c r) \<Longrightarrow> t \<noteq> MinusInf"
  by (auto simp: metropolis_accept_def)

text \<open>
  Claim C1, as stated: the test returns true if and only if the trial log-posterior is
  finite and either exceeds the current one or the exponential draw exceeds their
  difference. It fails for a trial log-posterior of plus infinity against a finite
  current one: the code only guards against minus infinity, and the trial is accepted.
\<close>

theorem C1_counterexample:
  "\<not> (fst (metropolis_accept (\<lambda>r::unit. (Finite 1, r)) PlusInf (Finite 0) ())
       \<longleftrightarrow> isfinite PlusInf \<and>
            (fgt PlusInf (Finite 0) \<or> fgt (Finite 1) (fsub (Finite 0) PlusInf)))"
  by (simp add: metropolis_accept_def)

text \<open>
  Claim C1, amended: the test returns true if and only if the trial log-posterior is not
  minus infinity and either exceeds the current one or the exponential draw exceeds
  \<open>L\<^sub>c - L\<^sub>t\<close> (every comparison with NaN being false); a trial at minus infinity is
  always rejected, and so is a NaN trial.
\<close>

theorem C1_metropolis_accept_iff:
  "(fst (metropolis_accept ex L_t L_c r)
      \<longleftrightarrow> L_t \<noteq> MinusInf \<and> (fgt L_t L_c \<or> fgt (fst (ex r)) (fsub L_c L_t)))
   \<and> fst (metropolis_accept ex MinusInf L_c r) = False
   \<and> fst (metropolis_accept ex NaN L_c r) = False"
  by (auto simp: metropolis_accept_def feq_MinusInf fgt_sub_nan split: prod.splits)

theorem C1_metropolis_accept_iff_witness:
  "(fst (metropolis_accept (\<lambda>r::unit. (Finite 1, r)) (Finite (-3)) (Finite (-2)) ())
      \<longleftrightarrow> Finite (-3) \<noteq> MinusInf \<and>
           (fgt (Finite (-3)) (Finite (-2)) \<or> fgt (Finite 1) (fsub (Finite (-2)) (Finite (-3)))))
   \<and> \<not> fst (metropolis_accept (\<lambda>r::unit. (Finite 1, r)) (Finite (-3)) (Finite (-2)) ())"
  using C1_metropolis_accept_iff [of "\<lambda>r::unit. (Finite 1, r)" "Finite (-3)" "Finite (-2)" "()"]
  by (simp add: metropolis_accept_def fsub_def)

section \<open>Properties of the covariance assembly\<close>

lemma length_set_entry: "length (set_entry m i j v) = length m"
  by (simp add: set_entry_def)

lemma length_row_set_entry: "length (set_entry m i j v ! k) = length (m ! k)"
proof (cases "i < length m")
  case True
  then show ?thesis by (simp add: set_entry_def nth_list_update)
next
  case False
  then have "m[i := (m ! i)[j := v]] = m" by (intro list_update_beyond) simp
  then show ?thesis by (simp add: set_entry_def)
qed

lemma set_entry_nth:
  "k < length m \<Longrightarrow> l < length (m ! k) \<Longrightarrow>
   set_entry m i j v ! k ! l = (if k = i \<and> l = j then v else m ! k ! l)"
  by (cases "k = i"; cases "l = j") (simp_all add: set_entry_def)

lemma is_square_set_entry: "is_square m \<Longrightarrow> is_square (set_entry m i j v)"
  unfolding is_square_def list_all_length
  by (simp add: length_set_entry length_row_set_entry)

lemma foldl_mask_dims:
  "length (foldl (\<lambda>m i. if w ! i then set_entry m i i (a ! i) else m) m ns) = length m
   \<and> length (foldl (\<lambda>m i. if w ! i then set_entry m i i (a ! i) else m) m ns ! k) = length (m ! k)"
  by (induction ns arbitrary: m) (simp_all add: length_set_entry length_row_set_entry)

lemma foldl_mask_nth:
  "k < length m \<Longrightarrow> l < length (m ! k) \<Longrightarrow>
   foldl (\<lambda>m i. if w ! i then set_entry m i i (a ! i) else m) m ns ! k ! l
     = (if k = l \<and> k \<in> set ns \<and> w ! k then a ! k else m ! k ! l)"
proof (induction ns arbitrary: m)
  case Nil
  then show ?case by simp
next
  case (Cons n ns)
  show ?case
  proof (cases "w ! n")
    case True
    have "k < length (set_entry m n n (a ! n))" "l < length (set_entry m n n (a ! n) ! k)"
      using Cons.prems by (simp_all add: length_set_entry length_row_set_entry)
    from Cons.IH [OF this] True Cons.prems show ?thesis
      by (auto simp: set_entry_nth)
  next
    case False
    with Cons.IH [OF Cons.prems] show ?thesis by auto
  qed
qed

lemma length_mask_assign_diag: "length (mask_assign_diag m w a) = length m"
  by (simp add: mask_assign_diag_def foldl_mask_dims)

lemma length_row_mask_assign_diag: "length (mask_assign_diag m w a ! k) = length (m ! k)"
  by (simp add: mask_assign_diag_def foldl_mask_dims)

lemma mask_assign_diag_nth:
  "k < length m \<Longrightarrow> l < length (m ! k) \<Longrightarrow>
   mask_assign_diag m w a ! k ! l = (if k = l \<and> w ! k then a ! k else m ! k ! l)"
  by (simp add: mask_assign_diag_def foldl_mask_nth)

lemma foldl_ix_dims:
  "length (foldl (\<lambda>m ((i, u), (j, w)). set_entry m i j (L ! u ! w)) m xs) = length m
   \<and> length (foldl (\<lambda>m ((i, u), (j, w)). set_entry m i j (L ! u ! w)) m xs ! k) = length (m ! k)"
  by (induction xs arbitrary: m)
     (simp_all add: length_set_entry length_row_set_entry split_beta)

lemma foldl_ix_nth:
  "k < length m \<Longrightarrow> l < length (m ! k) \<Longrightarrow>
   (\<And>i u j w. ((i, u), (j, w)) \<in> set xs \<Longrightarrow> i = k \<Longrightarrow> j = l \<Longrightarrow> L ! u ! w = v) \<Longrightarrow>
   m ! k ! l = v \<or> (\<exists>u w. ((k, u), (l, w)) \<in> set xs) \<Longrightarrow>
   foldl (\<lambda>m ((i, u), (j, w)). set_entry m i j (L ! u ! w)) m xs ! k ! l = v"
proof (induction xs arbitrary: m)
  case Nil
  then show ?case by simp
next
  case (Cons x xs)
  obtain i u j w where x: "x = ((i, u), (j, w))" by (metis prod.exhaust)
  let ?m = "set_entry m i j (L ! u ! w)"
  have d: "k < length ?m" "l < length (?m ! k)"
    using Cons.prems(1,2) by (simp_all add: length_set_entry length_row_set_entry)
  have e: "?m ! k ! l = (if k = i \<and> l = j then L ! u ! w else m ! k ! l)"
    using Cons.prems(1,2) by (rule set_entry_nth)
  have h: "\<And>i u j w. ((i, u), (j, w)) \<in> set xs \<Longrightarrow> i = k \<Longrightarrow> j = l \<Longrightarrow> L ! u ! w = v"
    using Cons.prems(3) by auto
  have "?m ! k ! l = v \<or> (\<exists>u w. ((k, u), (l, w)) \<in> set xs)"
  proof (cases "k = i \<and> l = j")
    case True
    have "((i, u), (j, w)) \<in> set (x # xs)" by (simp add: x)
    from Cons.prems(3) [OF this] True have "L ! u ! w = v" by blast
    with True e show ?thesis by simp
  next
    case False
    with Cons.prems(4) x e show ?thesis by auto
  qed
  from Cons.IH [OF d h this] show ?case by (simp add: x)
qed

lemma length_ix_assign: "length (ix_assign m ps L) = length m"
  by (simp add: ix_assign_def foldl_ix_dims)

lemma length_row_ix_assign: "length (ix_assign m ps L ! k) = length (m ! k)"
  by (simp add: ix_assign_def foldl_ix_dims)

lemma ix_assign_untouched:
  "k < length m \<Longrightarrow> l < length (m ! k) \<Longrightarrow> k \<notin> fst ` set ps \<or> l \<notin> fst ` set ps \<Longrightarrow>
   ix_assign m ps L ! k ! l = m ! k ! l"
  unfolding ix_assign_def
  by (rule foldl_ix_nth) (auto simp: image_iff)

lemma ix_assign_written:
  "k < length m \<Longrightarrow> l < length (m ! k) \<Longrightarrow> (k, u) \<in> set ps \<Longrightarrow> (l, w) \<in> set ps \<Longrightarrow>
   (\<And>i a b. (i, a) \<in> set ps \<Longrightarrow> (i, b) \<in> set ps \<Longrightarrow> a = b) \<Longrightarrow>
   ix_assign m ps L ! k ! l = L ! u ! w"
proof -
  assume u: "\<And>i a b. (i, a) \<in> set ps \<Longrightarrow> (i, b) \<in> set ps \<Longrightarrow> a = b"
    and k: "k < length m" "l < length (m ! k)" and ps: "(k, u) \<in> set ps" "(l, w) \<in> set ps"
  have "\<And>i u' j w'. ((i, u'), (j, w')) \<in> set (List.product ps ps) \<Longrightarrow> i = k \<Longrightarrow> j = l
          \<Longrightarrow> L ! u' ! w' = L ! u ! w"
    using u ps by (metis mem_Sigma_iff set_product)
  moreover have "\<exists>u w. ((k, u), (l, w)) \<in> set (List.product ps ps)"
    using ps by auto
  ultimately show ?thesis
    unfolding ix_assign_def using k by (intro foldl_ix_nth) auto
qed

lemma index_less: "x \<in> set xs \<Longrightarrow> index xs x < length xs"
  unfolding index_def by (induction xs) auto

lemma nth_index: "x \<in> set xs \<Longrightarrow> xs ! index xs x = x"
  unfolding index_def by (induction xs) auto

lemma index_nth_distinct: "distinct xs \<Longrightarrow> i < length xs \<Longrightarrow> index xs (xs ! i) = i"
  unfolding index_def
proof (induction xs arbitrary: i)
  case Nil
  then show ?case by simp
next
  case (Cons x xs)
  then show ?case by (cases i) auto
qed

lemma nan_diag_dims: "length (nan_diag d) = d" "i < d \<Longrightarrow> length (nan_diag d ! i) = d"
  by (simp_all add: nan_diag_def)

lemma nan_diag_nth: "i < d \<Longrightarrow> j < d \<Longrightarrow> nan_diag d ! i ! j = (if i = j then NaN else Finite 0)"
  by (simp add: nan_diag_def)

lemma isclose_not_nan: "isclose a b \<Longrightarrow> \<not> isnan b"
  by (cases a; cases b) simp_all

lemma allclose_transpose_not_nan:
  "allclose_transpose m \<Longrightarrow> i < length m \<Longrightarrow> j < length m \<Longrightarrow> \<not> isnan (m ! i ! j)"
  unfolding allclose_transpose_def list_all_iff
  using isclose_not_nan by fastforce

lemma after_loading_none: "after_loading params [] L (nan_diag (length params))"
  by (simp add: after_loading_def nan_diag_dims nan_diag_nth)

lemma fill_from_loaded_after:
  assumes r: "fill_from_loaded ev params lp L (nan_diag (length params)) = Inr c"
    and dist: "distinct params"
  shows "after_loading params lp L c"
proof -
  let ?d = "length params"
  let ?used = "filter (\<lambda>p. p \<in> set params) lp"
  let ?ps = "map (\<lambda>p. (index params p, index lp p)) ?used"
  from r have len: "length lp = length L" and ac: "allclose_transpose L"
    and c: "c = ix_assign (nan_diag ?d) ?ps L"
    by (auto simp: fill_from_loaded_def Let_def split: if_splits)
  have uniq: "\<And>i a b. (i, a) \<in> set ?ps \<Longrightarrow> (i, b) \<in> set ?ps \<Longrightarrow> a = b"
  proof -
    fix i a b assume "(i, a) \<in> set ?ps" "(i, b) \<in> set ?ps"
    then obtain p q where p: "p \<in> set params" "i = index params p" "a = index lp p"
      and q: "q \<in> set params" "i = index params q" "b = index lp q" by auto
    from p(1,2) q(1,2) have "p = q" by (metis nth_index)
    with p q show "a = b" by simp
  qed
  have mem: "\<And>i. i < ?d \<Longrightarrow> params ! i \<in> set lp \<Longrightarrow> (i, index lp (params ! i)) \<in> set ?ps"
  proof -
    fix i assume i: "i < ?d" "params ! i \<in> set lp"
    then have "params ! i \<in> set ?used" by simp
    then have "(index params (params ! i), index lp (params ! i)) \<in> set ?ps" by force
    then show "(i, index lp (params ! i)) \<in> set ?ps"
      using index_nth_distinct [OF dist i(1)] by simp
  qed
  have nomem: "\<And>i. i < ?d \<Longrightarrow> params ! i \<notin> set lp \<Longrightarrow> i \<notin> fst ` set ?ps"
  proof
    fix i assume i: "i < ?d" "params ! i \<notin> set lp" and "i \<in> fst ` set ?ps"
    then obtain p where p: "p \<in> set params" "p \<in> set lp" "i = index params p" by auto
    then have "params ! i = p" by (simp add: nth_index)
    with p(2) i(2) show False by simp
  qed
  have entries: "\<And>i j. i < ?d \<Longrightarrow> j < ?d \<Longrightarrow> c ! i ! j =
           (if params ! i \<in> set lp \<and> params ! j \<in> set lp
            then L ! index lp (params ! i) ! index lp (params ! j)
            else if i = j then NaN else Finite 0)"
  proof -
    fix i j assume ij: "i < ?d" "j < ?d"
    have d: "i < length (nan_diag ?d)" "j < length (nan_diag ?d ! i)"
      using ij by (simp_all add: nan_diag_dims)
    show "c ! i ! j = (if params ! i \<in> set lp \<and> params ! j \<in> set lp
            then L ! index lp (params ! i) ! index lp (params ! j)
            else if i = j then NaN else Finite 0)"
    proof (cases "params ! i \<in> set lp \<and> params ! j \<in> set lp")
      case True
      then have "c ! i ! j = L ! index lp (params ! i) ! index lp (params ! j)"
        unfolding c using mem [OF ij(1)] mem [OF ij(2)] uniq
        by (intro ix_assign_written [OF d]) blast+
      with True show ?thesis by simp
    next
      case False
      then have "i \<notin> fst ` set ?ps \<or> j \<notin> fst ` set ?ps"
        using nomem ij by blast
      from ix_assign_untouched [OF d this] have "c ! i ! j = nan_diag ?d ! i ! j"
        by (simp add: c)
      with False ij show ?thesis
        by (auto simp: nan_diag_nth)
    qed
  qed
  have nonan: "\<forall>p \<in> set lp. \<forall>q \<in> set lp. \<not> isnan (L ! index lp p ! index lp q)"
    using allclose_transpose_not_nan [OF ac] index_less len by metis
  show ?thesis
    unfolding after_loading_def
    using entries nonan by (simp add: c length_ix_assign length_row_ix_assign nan_diag_dims)
qed

lemma where_nan_nth: "i < length c \<Longrightarrow> map isnan (diagonal c) ! i = isnan (c ! i ! i)"
  by (simp add: diagonal_def)

lemma where_nan_ex: "list_ex id (map isnan (diagonal c)) \<longleftrightarrow> (\<exists>i < length c. isnan (c ! i ! i))"
  by (auto simp: list_ex_iff diagonal_def)

lemma stage_dims: "length (stage c a) = length c" "length (stage c a ! i) = length (c ! i)"
  by (simp_all add: stage_def length_mask_assign_diag length_row_mask_assign_diag)

lemma stage_nth:
  assumes "i < length c" "j < length (c ! i)"
  shows "stage c a ! i ! j = (if i = j \<and> isnan (c ! i ! i) then a ! i else c ! i ! j)"
proof (cases "list_ex id (map isnan (diagonal c))")
  case True
  then show ?thesis
    using assms by (simp add: stage_def mask_assign_diag_nth where_nan_nth)
next
  case False
  then have "\<not> isnan (c ! i ! i)" using assms(1) by (auto simp: where_nan_ex)
  with False show ?thesis by (simp add: stage_def)
qed

lemma fill_gaps_stage:
  "fill_gaps c1 infos rmax rearly =
     (let c3 = stage (stage c1 (map (\<lambda>info. case proposal info of None \<Rightarrow> fmul NaN NaN
                                                | Some w \<Rightarrow> fmul w w) infos))
                     (reference_covmat_diagonal infos);
          r = (if list_ex id (map isnan (diagonal c1)) then rearly else rmax)
      in if list_ex (list_ex isnan) c3 then (Inl AssertionError, r) else (Inr c3, r))"
  by (simp add: fill_gaps_def stage_def Let_def)

lemma declared_variance_nth:
  "(case proposal info of None \<Rightarrow> fmul NaN NaN | Some w \<Rightarrow> fmul w w) = v \<Longrightarrow>
   declared_variance info = (if isnan v then None else Some v)"
  by (auto simp: declared_variance_def split: option.splits)

lemma fill_gaps_result:
  assumes al: "after_loading params lp L c1"
    and len: "length infos = length params"
    and r: "fill_gaps c1 infos rmax rearly = (Inr c3, r)"
  shows "r = (if set params \<subseteq> set lp then rmax else rearly)"
    and "\<not> list_ex (list_ex isnan) c3"
    and "length c3 = length params"
    and "i < length params \<Longrightarrow> length (c3 ! i) = length params"
    and "i < length params \<Longrightarrow> c3 ! i ! i =
           (if params ! i \<in> set lp then L ! index lp (params ! i) ! index lp (params ! i)
            else case declared_variance (infos ! i) of
                   Some v \<Rightarrow> v
                 | None \<Rightarrow> reference_covmat_diagonal infos ! i)"
    and "i < length params \<Longrightarrow> j < length params \<Longrightarrow> i \<noteq> j \<Longrightarrow> c3 ! i ! j =
           (if params ! i \<in> set lp \<and> params ! j \<in> set lp
            then L ! index lp (params ! i) ! index lp (params ! j) else Finite 0)"
proof -
  let ?d = "length params"
  let ?p2 = "map (\<lambda>info. case proposal info of None \<Rightarrow> fmul NaN NaN | Some w \<Rightarrow> fmul w w) infos"
  let ?c2 = "stage c1 ?p2"
  from al have d1: "length c1 = ?d" "\<And>i. i < ?d \<Longrightarrow> length (c1 ! i) = ?d"
    and e1: "\<And>i j. i < ?d \<Longrightarrow> j < ?d \<Longrightarrow> c1 ! i ! j =
           (if params ! i \<in> set lp \<and> params ! j \<in> set lp
            then L ! index lp (params ! i) ! index lp (params ! j)
            else if i = j then NaN else Finite 0)"
    and nn: "\<And>p q. p \<in> set lp \<Longrightarrow> q \<in> set lp \<Longrightarrow> \<not> isnan (L ! index lp p ! index lp q)"
    by (simp_all add: after_loading_def)
  have diag1: "\<And>i. i < ?d \<Longrightarrow> isnan (c1 ! i ! i) \<longleftrightarrow> params ! i \<notin> set lp"
    using e1 nn by auto
  have "(\<exists>i < ?d. isnan (c1 ! i ! i)) \<longleftrightarrow> (\<exists>i < ?d. params ! i \<notin> set lp)"
    using diag1 by blast
  also have "\<dots> \<longleftrightarrow> \<not> set params \<subseteq> set lp"
    by (metis in_set_conv_nth subsetI subsetD nth_mem)
  finally have "list_ex id (map isnan (diagonal c1)) \<longleftrightarrow> \<not> set params \<subseteq> set lp"
    unfolding where_nan_ex d1(1) .
  moreover from r have c3: "c3 = stage ?c2 (reference_covmat_diagonal infos)"
    and r': "r = (if list_ex id (map isnan (diagonal c1)) then rearly else rmax)"
    and "\<not> list_ex (list_ex isnan) c3"
    by (auto simp: fill_gaps_stage Let_def split: if_splits)
  ultimately show "r = (if set params \<subseteq> set lp then rmax else rearly)"
    and "\<not> list_ex (list_ex isnan) c3" by auto
  show "length c3 = ?d" by (simp add: c3 stage_dims d1)
  have e2: "\<And>i j. i < ?d \<Longrightarrow> j < ?d \<Longrightarrow>
              ?c2 ! i ! j = (if i = j \<and> params ! i \<notin> set lp then ?p2 ! i else c1 ! i ! j)"
    using diag1 by (simp add: stage_nth d1)
  have e3: "\<And>i j. i < ?d \<Longrightarrow> j < ?d \<Longrightarrow>
              c3 ! i ! j = (if i = j \<and> isnan (?c2 ! i ! i)
                            then reference_covmat_diagonal infos ! i else ?c2 ! i ! j)"
    unfolding c3 by (simp add: stage_nth stage_dims d1)
  {
    assume i: "i < ?d"
    show "length (c3 ! i) = ?d" by (simp add: c3 stage_dims d1 i)
    have p2: "?p2 ! i = (case proposal (infos ! i) of None \<Rightarrow> fmul NaN NaN | Some w \<Rightarrow> fmul w w)"
      using i len by simp
    show "c3 ! i ! i =
           (if params ! i \<in> set lp then L ! index lp (params ! i) ! index lp (params ! i)
            else case declared_variance (infos ! i) of
                   Some v \<Rightarrow> v
                 | None \<Rightarrow> reference_covmat_diagonal infos ! i)"
    proof (cases "params ! i \<in> set lp")
      case True
      then have "?c2 ! i ! i = L ! index lp (params ! i) ! index lp (params ! i)"
        using e2 [OF i i] e1 [OF i i] by simp
      moreover have "\<not> isnan (L ! index lp (params ! i) ! index lp (params ! i))"
        using nn True by simp
      ultimately show ?thesis using e3 [OF i i] True by simp
    next
      case False
      then have "?c2 ! i ! i = ?p2 ! i" using e2 [OF i i] by simp
      with e3 [OF i i] False declared_variance_nth [OF p2 [symmetric]]
      show ?thesis by simp
    qed
  }
  {
    assume ij: "i < ?d" "j < ?d" "i \<noteq> j"
    show "c3 ! i ! j =
           (if params ! i \<in> set lp \<and> params ! j \<in> set lp
            then L ! index lp (params ! i) ! index lp (params ! j) else Finite 0)"
      using e3 [OF ij(1,2)] e2 [OF ij(1,2)] e1 [OF ij(1,2)] ij(3) by simp
  }
qed

lemma initial_proposal_covmat_stages:
  assumes r: "initial_proposal_covmat read_file eigvals_positive sampled_params covmat
                covmat_params rmax rearly = (Inr cov, r)"
    and dist: "distinct (map fst sampled_params)"
  shows "\<exists>c1. after_loading (map fst sampled_params)
                 (supplied_params read_file covmat covmat_params)
                 (supplied_covmat read_file covmat covmat_params) c1
              \<and> fill_gaps c1 (map snd sampled_params) rmax rearly = (Inr cov, r)"
proof (cases "load_covmat read_file covmat covmat_params")
  case (Inl e)
  with r show ?thesis
    by (simp add: initial_proposal_covmat_def Let_def split: if_splits)
next
  case (Inr loaded)
  show ?thesis
  proof (cases loaded)
    case None
    with Inr r have "fill_gaps (nan_diag (length (map fst sampled_params)))
                       (map snd sampled_params) rmax rearly = (Inr cov, r)"
      by (simp add: initial_proposal_covmat_def Let_def split: if_splits)
    moreover have "supplied_params read_file covmat covmat_params = []"
      using Inr None by (simp add: supplied_params_def)
    ultimately show ?thesis
      using after_loading_none [of "map fst sampled_params"] by metis
  next
    case (Some a)
    obtain lp L where a: "a = (lp, L)" by (cases a)
    from r Inr Some a obtain c1 where
      c1: "fill_from_loaded eigvals_positive (map fst sampled_params) lp L
             (nan_diag (length (map fst sampled_params))) = Inr c1"
      and g: "fill_gaps c1 (map snd sampled_params) rmax rearly = (Inr cov, r)"
      by (auto simp: initial_proposal_covmat_def Let_def split: if_splits sum.splits)
    have "supplied_params read_file covmat covmat_params = lp"
      "supplied_covmat read_file covmat covmat_params = L"
      using Inr Some a by (simp_all add: supplied_params_def supplied_covmat_def)
    with fill_from_loaded_after [OF c1 dist] g show ?thesis by metis
  qed
qed






text \<open>
  Claim C7, as stated: the threshold is set to its early value exactly when at least one
  diagonal entry is filled from a declared proposal width. It fails when no covariance is
  given and no parameter declares a width: nothing is filled from a width, and the
  threshold is raised all the same, because the code tests only whether the diagonal
  still has a NaN after the external covariance.
\<close>

theorem C7_counterexample:
  "snd (initial_proposal_covmat no_file eigvals_ok [(''a'', no_width)] NoCovmat []
          (Finite 2) (Finite 30)) = Finite 30
   \<and> fst (initial_proposal_covmat no_file eigvals_ok [(''a'', no_width)] NoCovmat []
          (Finite 2) (Finite 30)) = Inr [[Finite 4]]
   \<and> list_all (\<lambda>(p, info). proposal info = None) [(''a'', no_width)]"
  by code_simp

text \<open>
  Claim C7, amended: whenever \<open>initial_proposal_covmat\<close> returns a matrix, the operational
  \<open>learn_proposal_Rminus1_max\<close> is the early value exactly when some sampled parameter is
  not supplied by the external covariance (its diagonal entry is still NaN after the
  external step), whether or not any entry is then filled from a declared proposal width;
  when the external covariance supplies every sampled parameter, the threshold is left at
  its configured value.
\<close>

theorem C7_early_threshold:
  assumes "initial_proposal_covmat read_file eigvals_positive sampled_params covmat
             covmat_params rmax rearly = (Inr S, r)"
    and "distinct (map fst sampled_params)"
  shows "r = (if set (map fst sampled_params)
                   \<subseteq> set (supplied_params read_file covmat covmat_params)
              then rmax else rearly)"
proof -
  from initial_proposal_covmat_stages [OF assms] obtain c1 where
    al: "after_loading (map fst sampled_params)
           (supplied_params read_file covmat covmat_params)
           (supplied_covmat read_file covmat covmat_params) c1"
    and g: "fill_gaps c1 (map snd sampled_params) rmax rearly = (Inr S, r)" by blast
  have len: "length (map snd sampled_params) = length (map fst sampled_params)" by simp
  from fill_gaps_result(1) [OF al len g] show ?thesis .
qed

theorem C7_early_threshold_witness:
  "initial_proposal_covmat one_file eigvals_ok (take 2 scenario_params)
     (CovmatFile ''ba.covmat'') [] (Finite 2) (Finite 30)
     = (Inr [[Finite (1 / 10), Finite (1 / 100)], [Finite (1 / 100), Finite (1 / 5)]], Finite 2)
   \<and> distinct (map fst (take 2 scenario_params))
   \<and> supplied_params one_file (CovmatFile ''ba.covmat'') [] = [''b'', ''a'']"
proof -
  have run: "initial_proposal_covmat one_file eigvals_ok (take 2 scenario_params)
               (CovmatFile ''ba.covmat'') [] (Finite 2) (Finite 30)
             = (Inr [[Finite (1 / 10), Finite (1 / 100)], [Finite (1 / 100), Finite (1 / 5)]],
                Finite 2)"
    by code_simp
  have d: "distinct (map fst (take 2 scenario_params))" by code_simp
  have s: "supplied_params one_file (CovmatFile ''ba.covmat'') [] = [''b'', ''a'']"
    by code_simp
  from C7_early_threshold [OF run d] run d s show ?thesis by simp
qed
section \<open>Properties of the convergence checkpoint\<close>

lemma check_convergence_first_failure:
  assumes "mpi env" "learn_proposal opts" "\<not> converged st" "Rminus1_last st = None"
    and "\<not> cholesky_ok (fst (gather_stats env (rng st) (rows (collection st))))"
  shows "fst (check_convergence_and_learn_proposal env opts st) = Some AttributeError"
proof -
  obtain stats r where g: "gather_stats env (rng st) (rows (collection st)) = (stats, r)"
    by (cases "gather_stats env (rng st) (rows (collection st))")
  with assms show ?thesis
    by (simp add: check_convergence_and_learn_proposal_def Let_def)
qed

lemma check_convergence_later_failure:
  assumes "mpi env" "Rminus1_last st = Some x"
    and "\<not> cholesky_ok (fst (gather_stats env (rng st) (rows (collection st))))"
  shows "fst (check_convergence_and_learn_proposal env opts st) = None
         \<and> Rminus1_last (snd (check_convergence_and_learn_proposal env opts st)) = Some x
         \<and> converged (snd (check_convergence_and_learn_proposal env opts st)) = converged st"
proof -
  obtain stats r where g: "gather_stats env (rng st) (rows (collection st)) = (stats, r)"
    by (cases "gather_stats env (rng st) (rows (collection st))")
  with assms show ?thesis
    by (simp add: check_convergence_and_learn_proposal_def Let_def)
qed

text \<open>
  Claim C9: a Cholesky failure at any convergence checkpoint, the first included, is
  skipped without an error. The code breaks it at the first checkpoint of a run that
  learns the proposal under MPI: the failed checkpoint leaves \<open>Rminus1_last\<close> unset, and
  the learning step then reads \<^verbatim>\<open>self.Rminus1_last\<close> without the default that line 666
  gives it, which raises \<open>AttributeError\<close>. The two lemmas above are the general facts;
  this is the code at one such input.
\<close>

theorem C9_first_checkpoint_raises:
  "mpi (toy_env 3 1 (1 / 2) True)
   \<and> learn_proposal toy_options
   \<and> Rminus1_last (toy_mcmc Metropolis 0 1 0 one_row) = None
   \<and> \<not> cholesky_ok (fst (gather_stats (toy_env 3 1 (1 / 2) True)
                           (rng (toy_mcmc Metropolis 0 1 0 one_row))
                           (rows (collection (toy_mcmc Metropolis 0 1 0 one_row)))))
   \<and> fst (check_convergence_and_learn_proposal (toy_env 3 1 (1 / 2) True) toy_options
            (toy_mcmc Metropolis 0 1 0 one_row)) = Some AttributeError"
  by code_simp

section \<open>Properties of the engines\<close>

lemma process_reject:
  "process_accept_or_reject opts False trial der lp lpr ll st =
     (if weight (current_point st) + 1 > max_tries opts
      then (Some HandledException,
            st\<lparr>current_point := increase_weight (current_point st) 1,
               collection := out_update (collection st)\<rparr>)
      else (None, st\<lparr>current_point := increase_weight (current_point st) 1\<rparr>))"
  by (simp add: process_accept_or_reject_def Let_def increase_weight_def)

lemma process_accept_current:
  "process_accept_or_reject opts True trial der lp lpr ll st = (None, st') \<Longrightarrow>
   current_point st' = new_point trial der 1 lp lpr ll"
  by (auto simp: process_accept_or_reject_def Let_def split: if_splits prod.splits option.splits)

lemma metropolis_rejected:
  assumes "get_new_sample_metropolis env opts st = (Inr False, st')"
    and "pt_values (current_point st) < fresh st"
  shows "collection st' = collection st \<and> burn_in_left st' = burn_in_left st
       \<and> current_point st' = (current_point st)\<lparr>weight := weight (current_point st) + 1\<rparr>
       \<and> heap st' (pt_values (current_point st)) = heap st (pt_values (current_point st))
       \<and> weight (current_point st') \<le> max_tries opts"
  using assms
  apply (simp add: get_new_sample_metropolis_def deepcopy_def call_get_proposal_def
      call_logposterior_def call_metropolis_accept_def split: prod.splits)
  apply (auto simp: process_reject increase_weight_def process_accept_or_reject_def Let_def
      split: if_splits option.splits prod.splits)
  done

lemma frame_refl: "frame st st"
  by (simp add: frame_def)

lemma frame_trans:
  assumes "frame a b" "frame b c"
  shows "frame a c"
proof -
  from assms(2) have "c\<lparr>heap := heap b, fresh := fresh b, rng := rng b, calls := calls b\<rparr> = b"
    by (simp add: frame_def)
  then have "(c\<lparr>heap := heap b, fresh := fresh b, rng := rng b, calls := calls b\<rparr>)
               \<lparr>heap := heap a, fresh := fresh a, rng := rng a, calls := calls a\<rparr>
             = b\<lparr>heap := heap a, fresh := fresh a, rng := rng a, calls := calls a\<rparr>"
    by simp
  then have "c\<lparr>heap := heap a, fresh := fresh a, rng := rng a, calls := calls a\<rparr> = a"
    using assms(1) by (simp add: frame_def)
  with assms show ?thesis by (auto simp: frame_def)
qed

lemma frame_fields:
  assumes "frame st st'"
  shows "collection st' = collection st" "current_point st' = current_point st"
    "burn_in_left st' = burn_in_left st" "drag_interp_steps st' = drag_interp_steps st"
    "get_new_sample st' = get_new_sample st"
proof -
  from assms have e: "st'\<lparr>heap := heap st, fresh := fresh st, rng := rng st, calls := calls st\<rparr> = st"
    by (simp add: frame_def)
  show "collection st' = collection st" using arg_cong [OF e, of collection] by simp
  show "current_point st' = current_point st" using arg_cong [OF e, of current_point] by simp
  show "burn_in_left st' = burn_in_left st" using arg_cong [OF e, of burn_in_left] by simp
  show "drag_interp_steps st' = drag_interp_steps st"
    using arg_cong [OF e, of drag_interp_steps] by simp
  show "get_new_sample st' = get_new_sample st" using arg_cong [OF e, of get_new_sample] by simp
qed

lemma frame_deepcopy: "deepcopy a st = (b, st') \<Longrightarrow> frame st st' \<and> b = fresh st \<and> fresh st' = Suc (fresh st)"
  by (auto simp: deepcopy_def frame_def)

lemma frame_iadd: "fresh st0 \<le> a \<Longrightarrow> frame st0 st \<Longrightarrow> frame st0 (iadd a d st)"
  by (auto simp: iadd_def frame_def)

lemma fresh_iadd: "fresh (iadd a d st) = fresh st"
  by (simp add: iadd_def)

lemma frame_call_get_proposal: "fresh st0 \<le> a \<Longrightarrow> frame st0 st \<Longrightarrow> frame st0 (call_get_proposal env a st)"
  by (auto simp: call_get_proposal_def frame_def split: prod.splits)

lemma frame_call_get_proposal_slow: "fresh st0 \<le> a \<Longrightarrow> frame st0 st \<Longrightarrow> frame st0 (call_get_proposal_slow env a st)"
  by (auto simp: call_get_proposal_slow_def frame_def split: prod.splits)

lemma frame_call_get_proposal_fast: "call_get_proposal_fast env d st = (v, st') \<Longrightarrow> frame st st' \<and> fresh st' = fresh st"
  by (auto simp: call_get_proposal_fast_def frame_def split: prod.splits)

lemma frame_call_logposterior: "call_logposterior env a st = (res, st') \<Longrightarrow> frame st st' \<and> fresh st' = fresh st \<and> res = logposterior env (heap st a)"
  by (auto simp: call_logposterior_def frame_def)

lemma frame_call_metropolis_accept:
  "call_metropolis_accept env t c st = (b, st') \<Longrightarrow>
   frame st st' \<and> fresh st' = fresh st \<and> b = fst (metropolis_accept (exponential env) t c (rng st))"
  by (auto simp: call_metropolis_accept_def frame_def split: prod.splits)

lemma drag_step_frame:
  assumes "drag_step env steps (l, st) i = (l', st')"
  shows "frame st st'"
proof -
  obtain delta st1 where 1: "call_get_proposal_fast env (length (heap st (current_start_point l))) st = (delta, st1)"
    by (cases "call_get_proposal_fast env (length (heap st (current_start_point l))) st")
  obtain ps st2 where 2: "deepcopy (current_start_point l) st1 = (ps, st2)"
    by (cases "deepcopy (current_start_point l) st1")
  obtain pe st3 where 3: "deepcopy (current_end_point l) (iadd ps delta st2) = (pe, st3)"
    by (cases "deepcopy (current_end_point l) (iadd ps delta st2)")
  obtain res4 st4 where 4: "call_logposterior env ps (iadd pe delta st3) = (res4, st4)"
    by (cases "call_logposterior env ps (iadd pe delta st3)")
  obtain res5 st5 where 5: "call_logposterior env pe st4 = (res5, st5)"
    by (cases "call_logposterior env pe st4")
  note f1 = frame_call_get_proposal_fast [OF 1]
  note f2 = frame_deepcopy [OF 2]
  have f02: "frame st st2" using f1 f2 frame_trans by blast
  have ps: "fresh st \<le> ps" using f1 f2 by (simp add: frame_def)
  have f02': "frame st (iadd ps delta st2)" using frame_iadd [OF ps f02] .
  note f3 = frame_deepcopy [OF 3]
  have f03: "frame st st3" using f02' f3 frame_trans by blast
  have pe: "fresh st \<le> pe" using f3 f02' by (simp add: frame_def)
  have f03': "frame st (iadd pe delta st3)" using frame_iadd [OF pe f03] .
  note f4 = frame_call_logposterior [OF 4]
  have f04: "frame st st4" using f03' f4 frame_trans by blast
  note f5 = frame_call_logposterior [OF 5]
  have f05: "frame st st5" using f04 f5 frame_trans by blast
  have acc: "\<And>t c b s s'. call_metropolis_accept env t c s = (b, s') \<Longrightarrow> frame st s \<Longrightarrow> frame st s'"
    using frame_call_metropolis_accept frame_trans by blast
  from assms show ?thesis
    unfolding drag_step_def
    using 1 2 3 4 5 f04 f05 acc
    by (auto simp: Let_def split: prod.splits if_splits)
qed

lemma foldl_drag_frame:
  "foldl (drag_step env steps) (l, st) is = (l', st') \<Longrightarrow> frame st st'"
proof (induction "is" arbitrary: l st)
  case Nil
  then show ?case by (simp add: frame_refl)
next
  case (Cons i "is")
  obtain l1 st1 where s: "drag_step env steps (l, st) i = (l1, st1)"
    by (cases "drag_step env steps (l, st) i")
  from Cons.prems s have "foldl (drag_step env steps) (l1, st1) is = (l', st')" by simp
  from Cons.IH [OF this] drag_step_frame [OF s] show ?case by (rule frame_trans [rotated])
qed

lemma drag_loop_frame: "drag_loop env steps (l, st) = (l', st') \<Longrightarrow> frame st st'"
  unfolding drag_loop_def by (rule foldl_drag_frame)

lemma drag_begin_proceeds_frame:
  assumes "drag_begin env st = (Some l, st')"
  shows "frame st st'"
  using assms
  by (auto simp: drag_begin_def Let_def deepcopy_def call_get_proposal_slow_def
      call_logposterior_def frame_def split: prod.splits if_splits)

lemma drag_begin_rejects:
  assumes "drag_begin env st = (None, st')"
  shows "st'\<lparr>heap := heap st, fresh := fresh st, rng := rng st, calls := calls st\<rparr>
           = st\<lparr>current_point := (current_point st)\<lparr>weight := weight (current_point st) + 1\<rparr>\<rparr>
         \<and> (\<forall>a < fresh st. heap st' a = heap st a)"
  using assms
  by (auto simp: drag_begin_def Let_def deepcopy_def call_get_proposal_slow_def
      call_logposterior_def increase_weight_def split: prod.splits if_splits)

lemma reject_after_frame:
  assumes f: "frame st st5"
    and p: "process_accept_or_reject opts False t d lp lpr ll st5 = (None, st')"
  shows "st'\<lparr>heap := heap st, fresh := fresh st, rng := rng st, calls := calls st\<rparr>
           = st\<lparr>current_point := (current_point st)\<lparr>weight := weight (current_point st) + 1\<rparr>\<rparr>
         \<and> (\<forall>a < fresh st. heap st' a = heap st a)"
proof -
  from p have st': "st' = st5\<lparr>current_point := increase_weight (current_point st5) 1\<rparr>"
    by (auto simp: process_reject split: if_splits)
  from f have e: "st5\<lparr>heap := heap st, fresh := fresh st, rng := rng st, calls := calls st\<rparr> = st"
    and h: "\<forall>a < fresh st. heap st5 a = heap st a"
    by (simp_all add: frame_def)
  have c: "current_point st5 = current_point st" using frame_fields(2) [OF f] .
  have "st'\<lparr>heap := heap st, fresh := fresh st, rng := rng st, calls := calls st\<rparr>
          = (st5\<lparr>heap := heap st, fresh := fresh st, rng := rng st, calls := calls st\<rparr>)
              \<lparr>current_point := increase_weight (current_point st5) 1\<rparr>"
    by (simp add: st')
  also have "\<dots> = st\<lparr>current_point := (current_point st)\<lparr>weight := weight (current_point st) + 1\<rparr>\<rparr>"
    by (simp add: e c increase_weight_def)
  finally show ?thesis using h by (simp add: st')
qed

lemma dragging_rejected:
  assumes r: "get_new_sample_dragging env opts st = (Inr False, st')"
  shows "st'\<lparr>heap := heap st, fresh := fresh st, rng := rng st, calls := calls st\<rparr>
           = st\<lparr>current_point := (current_point st)\<lparr>weight := weight (current_point st) + 1\<rparr>\<rparr>
         \<and> (\<forall>a < fresh st. heap st' a = heap st a)"
proof -
  obtain res st3 where b: "drag_begin env st = (res, st3)" by (cases "drag_begin env st")
  show ?thesis
  proof (cases res)
    case None
    with r b have "st' = st3" by (simp add: get_new_sample_dragging_def)
    with drag_begin_rejects b None show ?thesis by blast
  next
    case (Some l0)
    obtain l st4 where lp: "drag_loop env (drag_interp_steps st3) (l0, st3) = (l, st4)"
      by (cases "drag_loop env (drag_interp_steps st3) (l0, st3)")
    obtain acc st5 where m: "call_metropolis_accept env
             (fdiv (end_drag_logpost_acc l) (Finite (real_of_int (drag_interp_steps st4))))
             (fdiv (start_drag_logpost_acc l) (Finite (real_of_int (drag_interp_steps st4))))
             st4 = (acc, st5)"
      by (cases "call_metropolis_accept env
             (fdiv (end_drag_logpost_acc l) (Finite (real_of_int (drag_interp_steps st4))))
             (fdiv (start_drag_logpost_acc l) (Finite (real_of_int (drag_interp_steps st4))))
             st4")
    have f03: "frame st st3" using drag_begin_proceeds_frame b Some by blast
    have f34: "frame st3 st4" using drag_loop_frame [OF lp] .
    have f45: "frame st4 st5" using frame_call_metropolis_accept [OF m] by simp
    have f05: "frame st st5" using f03 f34 f45 frame_trans by blast
    from r b Some lp m have p: "process_accept_or_reject opts acc (current_end_point l)
        (drag_derived l) (current_end_logpost l) (current_end_logprior l)
        (current_end_logliks l) st5 = (None, st')" and "acc = False"
      by (auto simp: get_new_sample_dragging_def split: option.splits prod.splits)
    with reject_after_frame [OF f05] show ?thesis by blast
  qed
qed

lemma metropolis_rejected_frame:
  assumes r: "get_new_sample_metropolis env opts st = (Inr False, st')"
  shows "st'\<lparr>heap := heap st, fresh := fresh st, rng := rng st, calls := calls st\<rparr>
           = st\<lparr>current_point := (current_point st)\<lparr>weight := weight (current_point st) + 1\<rparr>\<rparr>
         \<and> (\<forall>a < fresh st. heap st' a = heap st a)"
proof -
  obtain trial st1 where 1: "deepcopy (pt_values (current_point st)) st = (trial, st1)"
    by (cases "deepcopy (pt_values (current_point st)) st")
  obtain res st3 where 3: "call_logposterior env trial (call_get_proposal env trial st1) = (res, st3)"
    by (cases "call_logposterior env trial (call_get_proposal env trial st1)")
  obtain lp lpr ll der where res: "res = (lp, lpr, ll, der)" by (cases res) auto
  obtain acc st4 where 4: "call_metropolis_accept env lp (fneg (minuslogpost (current_point st3))) st3 = (acc, st4)"
    by (cases "call_metropolis_accept env lp (fneg (minuslogpost (current_point st3))) st3")
  note d = frame_deepcopy [OF 1]
  have f2: "frame st (call_get_proposal env trial st1)"
    using d by (intro frame_call_get_proposal) simp_all
  have f3: "frame st st3" using f2 frame_call_logposterior [OF 3] frame_trans by blast
  have f4: "frame st st4" using f3 frame_call_metropolis_accept [OF 4] frame_trans by blast
  from r 1 3 res 4 have "process_accept_or_reject opts acc trial der lp (Some lpr) ll st4 = (None, st')"
    and "acc = False"
    by (auto simp: get_new_sample_metropolis_def split: option.splits prod.splits)
  with reject_after_frame [OF f4] show ?thesis by blast
qed

text \<open>
  Claim C10: a rejected step whose resulting weight does not exceed \<open>max_tries\<close> changes
  nothing but the weight of the current point, which grows by one. A rejected step returns
  \<open>False\<close> unless the stuck-chain error is raised, so the steps of the claim are among
  those that return \<open>False\<close>. For either engine: apart from the arrays added to the store,
  the random source and the trace of calls, the sampler after the step is the sampler
  before it with the weight increased; in particular the collection, and the current
  point's array (which existed before the step) with its contents, its log-posterior,
  log-prior, log-likelihoods and derived parameters are unchanged. The trial is built in a
  new array, so the proposal never writes into the current point's.
\<close>

theorem C10_rejection_changes_only_weight:
  assumes "call_get_new_sample env opts st = (Inr False, st')"
    and "pt_values (current_point st) < fresh st"
  shows "st'\<lparr>heap := heap st, fresh := fresh st, rng := rng st, calls := calls st\<rparr>
           = st\<lparr>current_point := (current_point st)\<lparr>weight := weight (current_point st) + 1\<rparr>\<rparr>
         \<and> collection st' = collection st
         \<and> pt_values (current_point st') = pt_values (current_point st)
         \<and> heap st' (pt_values (current_point st')) = heap st (pt_values (current_point st))
         \<and> minuslogpost (current_point st') = minuslogpost (current_point st)
         \<and> logprior (current_point st') = logprior (current_point st)
         \<and> logliks (current_point st') = logliks (current_point st)
         \<and> derived (current_point st') = derived (current_point st)
         \<and> weight (current_point st') = weight (current_point st) + 1"
proof -
  let ?st = "st\<lparr>current_point := (current_point st)\<lparr>weight := weight (current_point st) + 1\<rparr>\<rparr>"
  have e: "st'\<lparr>heap := heap st, fresh := fresh st, rng := rng st, calls := calls st\<rparr> = ?st"
    and h: "\<forall>a < fresh st. heap st' a = heap st a"
    using assms(1) metropolis_rejected_frame [of env opts st st']
      dragging_rejected [of env opts st st']
    by (auto simp: call_get_new_sample_def split: engine.splits)
  have c: "collection st' = collection st" using arg_cong [OF e, of collection] by simp
  have p: "current_point st' = (current_point st)\<lparr>weight := weight (current_point st) + 1\<rparr>"
    using arg_cong [OF e, of current_point] by simp
  show ?thesis using e c p h assms(2) by simp
qed

theorem C10_rejection_changes_only_weight_witness:
  "fst (call_get_new_sample (toy_env 3 1 (1 / 2) False) toy_options
          (toy_mcmc Metropolis 0 1 0 one_row)) = Inr False
   \<and> pt_values (current_point (toy_mcmc Metropolis 0 1 0 one_row))
       < fresh (toy_mcmc Metropolis 0 1 0 one_row)
   \<and> weight (current_point (snd (call_get_new_sample (toy_env 3 1 (1 / 2) False) toy_options
          (toy_mcmc Metropolis 0 1 0 one_row)))) = 2
   \<and> collection (snd (call_get_new_sample (toy_env 3 1 (1 / 2) False) toy_options
          (toy_mcmc Metropolis 0 1 0 one_row))) = one_row"
proof -
  let ?r = "call_get_new_sample (toy_env 3 1 (1 / 2) False) toy_options
              (toy_mcmc Metropolis 0 1 0 one_row)"
  have f: "fst ?r = Inr False" by code_simp
  then have run: "?r = (Inr False, snd ?r)" by (metis prod.collapse)
  have a: "pt_values (current_point (toy_mcmc Metropolis 0 1 0 one_row))
             < fresh (toy_mcmc Metropolis 0 1 0 one_row)"
    by code_simp
  have w: "weight (current_point (toy_mcmc Metropolis 0 1 0 one_row)) = 1"
    and c: "collection (toy_mcmc Metropolis 0 1 0 one_row) = one_row"
    by (simp_all add: toy_mcmc_def new_point_def)
  from C10_rejection_changes_only_weight [OF run a] f a w c show ?thesis by simp
qed


section \<open>The log-posterior of the current point\<close>

lemma metropolis_accepted_logpost:
  assumes r: "get_new_sample_metropolis env opts st = (Inr True, st')"
  shows "fneg (minuslogpost (current_point st')) \<noteq> MinusInf
       \<and> fneg (minuslogpost (current_point st')) \<noteq> NaN"
proof -
  obtain trial st1 where 1: "deepcopy (pt_values (current_point st)) st = (trial, st1)"
    by (cases "deepcopy (pt_values (current_point st)) st")
  obtain res st3 where 3: "call_logposterior env trial (call_get_proposal env trial st1) = (res, st3)"
    by (cases "call_logposterior env trial (call_get_proposal env trial st1)")
  obtain lp lpr ll der where res: "res = (lp, lpr, ll, der)" by (cases res) auto
  obtain acc st4 where 4: "call_metropolis_accept env lp (fneg (minuslogpost (current_point st3))) st3 = (acc, st4)"
    by (cases "call_metropolis_accept env lp (fneg (minuslogpost (current_point st3))) st3")
  from r 1 3 res 4 have p: "process_accept_or_reject opts acc trial der lp (Some lpr) ll st4 = (None, st')"
    and acc: "acc = True"
    by (auto simp: get_new_sample_metropolis_def split: option.splits prod.splits)
  from frame_call_metropolis_accept [OF 4] acc
  have a: "fst (metropolis_accept (exponential env) lp (fneg (minuslogpost (current_point st3))) (rng st3))"
    by simp
  have "lp \<noteq> NaN" using a by (rule metropolis_accept_not_nan)
  moreover have "lp \<noteq> MinusInf" using a by (rule metropolis_accept_not_minusinf)
  moreover have "current_point st' = new_point trial der 1 lp (Some lpr) ll"
    using p unfolding acc by (rule process_accept_current)
  ultimately show ?thesis by (simp add: new_point_def fneg_fneg)
qed

text \<open>The invariant of the dragging loop on the end tracker.\<close>

lemma fdiv_nan_left: "fdiv NaN b = NaN"
  by simp

lemma drag_step_end_inv:
  assumes s: "drag_step env steps (l, st) i = (l', st')"
    and inv: "current_end_logpost l \<noteq> MinusInf"
      "current_end_logpost l = NaN \<longrightarrow> end_drag_logpost_acc l = NaN"
  shows "current_end_logpost l' \<noteq> MinusInf
       \<and> (current_end_logpost l' = NaN \<longrightarrow> end_drag_logpost_acc l' = NaN)"
  using s inv
  unfolding drag_step_def
  by (auto simp: Let_def split: prod.splits if_splits
      dest: fgt_not_nan_left fgt_not_minusinf_left)

lemma foldl_drag_end_inv:
  "foldl (drag_step env steps) (l, st) is = (l', st') \<Longrightarrow>
   current_end_logpost l \<noteq> MinusInf \<Longrightarrow>
   (current_end_logpost l = NaN \<longrightarrow> end_drag_logpost_acc l = NaN) \<Longrightarrow>
   current_end_logpost l' \<noteq> MinusInf
     \<and> (current_end_logpost l' = NaN \<longrightarrow> end_drag_logpost_acc l' = NaN)"
proof (induction "is" arbitrary: l st)
  case Nil
  then show ?case by simp
next
  case (Cons i "is")
  obtain l1 st1 where s: "drag_step env steps (l, st) i = (l1, st1)"
    by (cases "drag_step env steps (l, st) i")
  from Cons.prems(1) s have f: "foldl (drag_step env steps) (l1, st1) is = (l', st')" by simp
  from drag_step_end_inv [OF s Cons.prems(2,3)]
  have "current_end_logpost l1 \<noteq> MinusInf"
    "current_end_logpost l1 = NaN \<longrightarrow> end_drag_logpost_acc l1 = NaN" by simp_all
  then show ?case by (rule Cons.IH [OF f])
qed

lemma drag_begin_end_inv:
  "drag_begin env st = (Some l, st') \<Longrightarrow>
   current_end_logpost l \<noteq> MinusInf \<and> end_drag_logpost_acc l = current_end_logpost l"
  by (auto simp: drag_begin_def Let_def feq_MinusInf split: prod.splits if_splits)

lemma dragging_accepted_logpost:
  assumes r: "get_new_sample_dragging env opts st = (Inr True, st')"
  shows "fneg (minuslogpost (current_point st')) \<noteq> MinusInf
       \<and> fneg (minuslogpost (current_point st')) \<noteq> NaN"
proof -
  obtain res st3 where b: "drag_begin env st = (res, st3)" by (cases "drag_begin env st")
  from r b obtain l0 where res: "res = Some l0"
    by (cases res) (auto simp: get_new_sample_dragging_def)
  obtain l st4 where lp: "drag_loop env (drag_interp_steps st3) (l0, st3) = (l, st4)"
    by (cases "drag_loop env (drag_interp_steps st3) (l0, st3)")
  let ?t = "fdiv (end_drag_logpost_acc l) (Finite (real_of_int (drag_interp_steps st4)))"
  let ?c = "fdiv (start_drag_logpost_acc l) (Finite (real_of_int (drag_interp_steps st4)))"
  obtain acc st5 where m: "call_metropolis_accept env ?t ?c st4 = (acc, st5)"
    by (cases "call_metropolis_accept env ?t ?c st4")
  from r b res lp m have p: "process_accept_or_reject opts acc (current_end_point l)
        (drag_derived l) (current_end_logpost l) (current_end_logprior l)
        (current_end_logliks l) st5 = (None, st')" and acc: "acc = True"
    by (auto simp: get_new_sample_dragging_def split: option.splits prod.splits)
  from b res have b': "drag_begin env st = (Some l0, st3)" by simp
  have i0: "current_end_logpost l0 \<noteq> MinusInf"
    "current_end_logpost l0 = NaN \<longrightarrow> end_drag_logpost_acc l0 = NaN"
    using drag_begin_end_inv [OF b'] by simp_all
  have inv: "current_end_logpost l \<noteq> MinusInf"
    "current_end_logpost l = NaN \<longrightarrow> end_drag_logpost_acc l = NaN"
    using foldl_drag_end_inv [OF lp [unfolded drag_loop_def] i0] by simp_all
  from frame_call_metropolis_accept [OF m] acc
  have "fst (metropolis_accept (exponential env) ?t ?c (rng st4))" by simp
  then have "?t \<noteq> NaN" by (rule metropolis_accept_not_nan)
  then have "end_drag_logpost_acc l \<noteq> NaN" by auto
  with inv have "current_end_logpost l \<noteq> NaN" "current_end_logpost l \<noteq> MinusInf" by auto
  moreover have "current_point st' = new_point (current_end_point l) (drag_derived l) 1
      (current_end_logpost l) (current_end_logprior l) (current_end_logliks l)"
    using p unfolding acc by (rule process_accept_current)
  ultimately show ?thesis by (simp add: new_point_def fneg_fneg)
qed

lemma reference_finite:
  "reference env k r = (Inr x, r') \<Longrightarrow> isfinite (fst (logposterior env x))"
  by (induction k arbitrary: r) (auto split: prod.splits if_splits)

lemma seat_initial_point_finite:
  assumes "seat_initial_point env opts st = (None, st')"
  shows "isfinite (fneg (minuslogpost (current_point st')))
       \<and> weight (current_point st') = 1 \<and> collection st' = collection st
       \<and> pt_values (current_point st') < fresh st'"
proof -
  obtain res r where rf: "reference env (nat (max_tries opts)) (rng st) = (res, r)"
    by (cases "reference env (nat (max_tries opts)) (rng st)")
  with assms obtain x where x: "res = Inr x"
    by (cases res) (auto simp: seat_initial_point_def)
  from rf x have "reference env (nat (max_tries opts)) (rng st) = (Inr x, r)" by simp
  then have "isfinite (fst (logposterior env x))" by (rule reference_finite)
  with assms rf x show ?thesis
    by (auto simp: seat_initial_point_def Let_def call_logposterior_def new_point_def fneg_fneg
        split: prod.splits)
qed

text \<open>
  Claim C4, as stated: every trial an engine accepts has finite log-posterior. It fails
  for a trial whose log-posterior is plus infinity: the acceptance test guards only
  against minus infinity, the trial is accepted and installed as the current point.
\<close>

theorem C4_counterexample:
  "fst (call_get_new_sample (toy_env 5 1 (1 / 2) False) toy_options
          (toy_mcmc Metropolis 0 1 0 no_rows)) = Inr True
   \<and> fneg (minuslogpost (current_point (snd (call_get_new_sample (toy_env 5 1 (1 / 2) False)
          toy_options (toy_mcmc Metropolis 0 1 0 no_rows))))) = PlusInf
   \<and> \<not> isfinite PlusInf"
  by code_simp

text \<open>
  Claim C4, amended: a point whose log-posterior is minus infinity or NaN is never
  installed as the current point by an accepted step of the Metropolis or of the dragging
  engine (plus infinity is not excluded); and the initial point that \<^verbatim>\<open>run\<close> seats has
  finite log-posterior, the reference draw being retried up to \<open>max_tries\<close> times while
  its posterior is not finite. The second part rests on \<open>reference\<close>, which is modelled
  from the specification: \<^verbatim>\<open>run\<close> itself seats whatever point it is given.
\<close>

theorem C4_installed_logposterior:
  "(seat_initial_point env opts st = (None, st1) \<longrightarrow>
      isfinite (fneg (minuslogpost (current_point st1))))
   \<and> (call_get_new_sample env opts st = (Inr True, st2) \<longrightarrow>
      fneg (minuslogpost (current_point st2)) \<noteq> MinusInf
      \<and> fneg (minuslogpost (current_point st2)) \<noteq> NaN)"
  using seat_initial_point_finite [of env opts st st1]
    metropolis_accepted_logpost [of env opts st st2]
    dragging_accepted_logpost [of env opts st st2]
  by (auto simp: call_get_new_sample_def split: engine.splits)

theorem C4_installed_logposterior_witness:
  "fst (seat_initial_point (toy_env (- 1) 1 (1 / 2) False) toy_options (configured 0)) = None
   \<and> fneg (minuslogpost (current_point (snd (seat_initial_point (toy_env (- 1) 1 (1 / 2) False)
            toy_options (configured 0))))) = Finite (- 2)
   \<and> fst (call_get_new_sample (toy_env (- 1) 1 (1 / 2) False) toy_options
            (toy_mcmc Metropolis 0 1 0 no_rows)) = Inr True
   \<and> fneg (minuslogpost (current_point (snd (call_get_new_sample (toy_env (- 1) 1 (1 / 2) False)
            toy_options (toy_mcmc Metropolis 0 1 0 no_rows))))) = Finite (- 1)"
proof -
  let ?E = "toy_env (- 1) 1 (1 / 2) False"
  let ?s = "seat_initial_point ?E toy_options (configured 0)"
  let ?g = "call_get_new_sample ?E toy_options (toy_mcmc Metropolis 0 1 0 no_rows)"
  have 1: "fst ?s = None" by code_simp
  have 2: "fst ?g = Inr True" by code_simp
  have 3: "fneg (minuslogpost (current_point (snd ?s))) = Finite (- 2)" by code_simp
  have 4: "fneg (minuslogpost (current_point (snd ?g))) = Finite (- 1)" by code_simp
  have s: "?s = (None, snd ?s)" using 1 by (metis prod.collapse)
  have g: "?g = (Inr True, snd ?g)" using 2 by (metis prod.collapse)
  from C4_installed_logposterior [of ?E toy_options "configured 0" "snd ?s"]
       C4_installed_logposterior [of ?E toy_options "toy_mcmc Metropolis 0 1 0 no_rows" _ "snd ?g"]
       1 2 3 4 show ?thesis by simp
qed

section \<open>The weights of the chain\<close>

lemma total_weight_frame: "frame st st5 \<Longrightarrow> total_weight st5 = total_weight st"
  using frame_fields(1,2) [of st st5] by (simp add: total_weight_def)

lemma process_accounted:
  assumes "process_accept_or_reject opts acc t d lp lpr ll st5 = (None, st')"
  shows "accounted acc st5 st'"
  using assms
  by (auto simp: accounted_def process_accept_or_reject_def Let_def total_weight_def
      add_to_collection_def out_update_def snapshot_def new_point_def increase_weight_def
      split: if_splits)

lemma after_frame_accounted:
  assumes f: "frame st st5"
    and p: "process_accept_or_reject opts acc t d lp lpr ll st5 = (None, st')"
  shows "accounted acc st st'"
  using process_accounted [OF p]
  unfolding accounted_def total_weight_frame [OF f] frame_fields(2) [OF f]
    frame_fields(3) [OF f] .

lemma metropolis_accounted:
  assumes r: "get_new_sample_metropolis env opts st = (Inr b, st')"
  shows "accounted b st st'"
proof -
  obtain trial st1 where 1: "deepcopy (pt_values (current_point st)) st = (trial, st1)"
    by (cases "deepcopy (pt_values (current_point st)) st")
  obtain res st3 where 3: "call_logposterior env trial (call_get_proposal env trial st1) = (res, st3)"
    by (cases "call_logposterior env trial (call_get_proposal env trial st1)")
  obtain lp lpr ll der where res: "res = (lp, lpr, ll, der)" by (cases res) auto
  obtain acc st4 where 4: "call_metropolis_accept env lp (fneg (minuslogpost (current_point st3))) st3 = (acc, st4)"
    by (cases "call_metropolis_accept env lp (fneg (minuslogpost (current_point st3))) st3")
  note d = frame_deepcopy [OF 1]
  have f2: "frame st (call_get_proposal env trial st1)"
    using d by (intro frame_call_get_proposal) simp_all
  have f3: "frame st st3" using f2 frame_call_logposterior [OF 3] by (auto intro: frame_trans)
  have f4: "frame st st4" using f3 frame_call_metropolis_accept [OF 4] by (auto intro: frame_trans)
  from r 1 3 res 4
  have p: "process_accept_or_reject opts acc trial der lp (Some lpr) ll st4 = (None, st')"
    and b: "b = acc"
    by (auto simp: get_new_sample_metropolis_def split: option.splits prod.splits)
  from f4 p show ?thesis unfolding b by (rule after_frame_accounted)
qed

lemma dragging_accounted:
  assumes r: "get_new_sample_dragging env opts st = (Inr b, st')"
  shows "accounted b st st'"
proof -
  obtain res st3 where b: "drag_begin env st = (res, st3)" by (cases "drag_begin env st")
  show ?thesis
  proof (cases res)
    case None
    with r b have e: "st' = st3" and nb: "\<not> b" by (simp_all add: get_new_sample_dragging_def)
    from b None have "drag_begin env st = (None, st')" by (simp add: e)
    from drag_begin_rejects [OF this]
    have q: "st'\<lparr>heap := heap st, fresh := fresh st, rng := rng st, calls := calls st\<rparr>
           = st\<lparr>current_point := (current_point st)\<lparr>weight := weight (current_point st) + 1\<rparr>\<rparr>"
      by simp
    have "collection st' = collection st" using arg_cong [OF q, of collection] by simp
    moreover have "current_point st' = (current_point st)\<lparr>weight := weight (current_point st) + 1\<rparr>"
      using arg_cong [OF q, of current_point] by simp
    moreover have "burn_in_left st' = burn_in_left st" using arg_cong [OF q, of burn_in_left] by simp
    ultimately show ?thesis using nb by (simp add: accounted_def total_weight_def)
  next
    case (Some l0)
    obtain l st4 where lp: "drag_loop env (drag_interp_steps st3) (l0, st3) = (l, st4)"
      by (cases "drag_loop env (drag_interp_steps st3) (l0, st3)")
    let ?t = "fdiv (end_drag_logpost_acc l) (Finite (real_of_int (drag_interp_steps st4)))"
    let ?c = "fdiv (start_drag_logpost_acc l) (Finite (real_of_int (drag_interp_steps st4)))"
    obtain acc st5 where m: "call_metropolis_accept env ?t ?c st4 = (acc, st5)"
      by (cases "call_metropolis_accept env ?t ?c st4")
    from b Some have b': "drag_begin env st = (Some l0, st3)" by simp
    have f03: "frame st st3" using b' by (rule drag_begin_proceeds_frame)
    have f34: "frame st3 st4" using lp by (rule drag_loop_frame)
    have f45: "frame st4 st5" using frame_call_metropolis_accept [OF m] by simp
    have f05: "frame st st5" using f03 f34 f45 by (auto intro: frame_trans)
    from r b Some lp m have p: "process_accept_or_reject opts acc (current_end_point l)
        (drag_derived l) (current_end_logpost l) (current_end_logprior l)
        (current_end_logliks l) st5 = (None, st')" and e: "b = acc"
      by (auto simp: get_new_sample_dragging_def split: option.splits prod.splits)
    from f05 p show ?thesis unfolding e by (rule after_frame_accounted)
  qed
qed

lemma callback_step_same:
  "callback_step opts st = (r, st') \<Longrightarrow>
   collection st' = collection st \<and> current_point st' = current_point st
   \<and> burn_in_left st' = burn_in_left st"
  by (auto simp: callback_step_def split: if_splits)

lemma check_all_ready_same:
  "check_all_ready env opts st = (r, st') \<Longrightarrow>
   collection st' = collection st \<and> current_point st' = current_point st
   \<and> burn_in_left st' = burn_in_left st"
  by (auto simp: check_all_ready_def Let_def split: if_splits prod.splits)

lemma check_convergence_same:
  "check_convergence_and_learn_proposal env opts st = (r, st') \<Longrightarrow>
   collection st' = collection st \<and> current_point st' = current_point st
   \<and> burn_in_left st' = burn_in_left st"
  by (auto simp: check_convergence_and_learn_proposal_def Let_def
      split: if_splits prod.splits option.splits)

lemma loop_body_accounted:
  assumes "loop_body env opts st = (None, st')"
  shows "accounted (fst (call_get_new_sample env opts st) = Inr True) st st'"
proof -
  obtain res st1 where g: "call_get_new_sample env opts st = (res, st1)"
    by (cases "call_get_new_sample env opts st")
  with assms obtain b where res: "res = Inr b" by (cases res) (auto simp: loop_body_def)
  obtain c st2 where cb: "callback_step opts st1 = (c, st2)" by (cases "callback_step opts st1")
  with assms g res have c: "c = None" by (cases c) (auto simp: loop_body_def)
  obtain rd st3 where ar: "check_all_ready env opts st2 = (rd, st3)"
    by (cases "check_all_ready env opts st2")
  with assms g res cb c obtain ready where rd: "rd = Inr ready"
    by (cases rd) (auto simp: loop_body_def)
  have e: "st' = st3 \<or> check_convergence_and_learn_proposal env opts st3 = (None, st')"
    using assms g res cb c ar rd by (auto simp: loop_body_def split: if_splits)
  have s3: "collection st' = collection st3 \<and> current_point st' = current_point st3
            \<and> burn_in_left st' = burn_in_left st3"
    using e check_convergence_same by blast
  have s1: "collection st' = collection st1 \<and> current_point st' = current_point st1
            \<and> burn_in_left st' = burn_in_left st1"
    using s3 callback_step_same [OF cb] check_all_ready_same [OF ar] by simp
  have "accounted b st st1"
    using g [unfolded res] metropolis_accounted [of env opts st b st1]
      dragging_accounted [of env opts st b st1]
    by (auto simp: call_get_new_sample_def split: engine.splits)
  with s1 show ?thesis by (simp add: accounted_def total_weight_def g res)
qed

lemma sum_list_take_Cons:
  "0 < b \<Longrightarrow> sum_list (take (nat b) (w # ws)) = w + sum_list (take (nat (b - 1)) ws)"
  for b :: int and w :: int
  by (simp add: take_Cons' nat_diff_distrib)

lemma sum_list_take_none: "b \<le> 0 \<Longrightarrow> sum_list (take (nat b) ws) = 0"
  for b :: int and ws :: "int list"
  by simp

lemma iterations_accounted:
  "iterations env opts k st = (None, st') \<Longrightarrow>
   total_weight st' + sum_list (take (nat (burn_in_left st)) (replaced_weights env opts k st))
     = total_weight st + int k"
proof (induction k arbitrary: st)
  case 0
  then show ?case by simp
next
  case (Suc k)
  obtain r s where b: "loop_body env opts st = (r, s)" by (cases "loop_body env opts st")
  with Suc.prems have r: "r = None" and i: "iterations env opts k s = (None, st')"
    by (auto split: option.splits)
  note a = loop_body_accounted [OF b [unfolded r], unfolded accounted_def]
  note ih = Suc.IH [OF i]
  show ?case
  proof (cases "fst (call_get_new_sample env opts st) = Inr True")
    case False
    with a ih b r show ?thesis by simp
  next
    case True
    show ?thesis
    proof (cases "0 < burn_in_left st")
      case pos: True
      with a True have s: "burn_in_left s = burn_in_left st - 1"
        and w: "total_weight s + weight (current_point st) = total_weight st + 1" by simp_all
      have "replaced_weights env opts (Suc k) st
              = weight (current_point st) # replaced_weights env opts k s"
        using b r True by simp
      with ih s w sum_list_take_Cons [OF pos] show ?thesis by simp
    next
      case False
      with a True have s: "burn_in_left s = burn_in_left st"
        and w: "total_weight s = total_weight st + 1" by simp_all
      from False have z: "nat (burn_in_left st) = 0" by simp
      from ih s w z show ?thesis by simp
    qed
  qed
qed

lemma choose_mode_keeps:
  "choose_mode opts speeds blocks d st = Inr st1 \<Longrightarrow>
   burn_in_left st1 = burn_in_left st \<and> collection st1 = collection st"
  by (auto simp: choose_mode_def Let_def split: if_splits)

lemma initialise_countdown:
  assumes "initialise env read_file ev opts speeds sp st = Inr st1"
  shows "burn_in_left st1 = burn_in opts + 1 \<and> rows (collection st1) = []"
proof -
  let ?st0 = "st\<lparr>burn_in_left := burn_in opts + 1, collection := empty_collection,
                 current_point := empty_point, get_new_sample := Metropolis\<rparr>"
  let ?blocks = "map (\<lambda>(speed, b). map (index (map fst sp)) b) speeds"
  from assms obtain s where c: "choose_mode opts (map fst speeds) ?blocks (length sp) ?st0 = Inr s"
    and e: "burn_in_left st1 = burn_in_left s \<and> collection st1 = collection s"
    by (auto simp: initialise_def Let_def split: if_splits sum.splits prod.splits)
  from choose_mode_keeps [OF c] e show ?thesis by (simp add: empty_collection_def)
qed

lemma seat_initial_point_countdown:
  "seat_initial_point env opts st = (None, st') \<Longrightarrow> burn_in_left st' = burn_in_left st"
  by (auto simp: seat_initial_point_def Let_def call_logposterior_def
      split: prod.splits sum.splits)

text \<open>
  What the main loop does on any fuel is a number of passes of \<open>iterations\<close>, so the
  statements about \<open>iterations\<close> cover every state the driver reaches.
\<close>

lemma run_loop_iterations:
  "\<exists>k \<le> fuel. (case fst (run_loop env opts fuel st) of
                   Raised e \<Rightarrow> iterations env opts k st = (Some e, snd (run_loop env opts fuel st))
                 | _ \<Rightarrow> iterations env opts k st = (None, snd (run_loop env opts fuel st)))"
proof (induction fuel arbitrary: st)
  case 0
  show ?case by (rule exI [of _ 0]) simp
next
  case (Suc fuel)
  show ?case
  proof (cases "flt (Finite (real_of_int (mcmc_n st))) (effective_max_samples st) \<and> \<not> converged st")
    case False
    then show ?thesis by (intro exI [of _ 0]) auto
  next
    case True
    obtain r s where b: "loop_body env opts st = (r, s)" by (cases "loop_body env opts st")
    show ?thesis
    proof (cases r)
      case (Some e)
      with True b show ?thesis by (intro exI [of _ 1]) simp
    next
      case None
      from Suc.IH [of s] obtain k where k: "k \<le> fuel"
        "(case fst (run_loop env opts fuel s) of
            Raised e \<Rightarrow> iterations env opts k s = (Some e, snd (run_loop env opts fuel s))
          | _ \<Rightarrow> iterations env opts k s = (None, snd (run_loop env opts fuel s)))" by blast
      have rl: "run_loop env opts (Suc fuel) st = run_loop env opts fuel s"
        using True b None by simp
      have it: "iterations env opts (Suc k) st = iterations env opts k s"
        using b None by simp
      show ?thesis
        using k by (intro exI [of _ "Suc k"]) (simp only: rl it, simp)
    qed
  qed
qed

text \<open>
  Claim C5, as stated: the sum of the weights is the number of proposals evaluated minus
  the burn-in discards minus one. It fails after a single rejected proposal: the sum is 2
  (the initial point's weight 1 and the rejection), no proposal has been accepted, so no
  point has been discarded, and the formula gives 0.
\<close>

theorem C5_counterexample:
  "fst (iterations (toy_env 3 1 (1 / 2) False) toy_options 1
          (toy_mcmc Metropolis 0 1 1 no_rows)) = None
   \<and> fst (call_get_new_sample (toy_env 3 1 (1 / 2) False) toy_options
          (toy_mcmc Metropolis 0 1 1 no_rows)) = Inr False
   \<and> rows (collection (snd (iterations (toy_env 3 1 (1 / 2) False) toy_options 1
          (toy_mcmc Metropolis 0 1 1 no_rows)))) = []
   \<and> weight (current_point (snd (iterations (toy_env 3 1 (1 / 2) False) toy_options 1
          (toy_mcmc Metropolis 0 1 1 no_rows)))) = 2
   \<and> total_weight (snd (iterations (toy_env 3 1 (1 / 2) False) toy_options 1
          (toy_mcmc Metropolis 0 1 1 no_rows))) = 2
   \<and> replaced_weights (toy_env 3 1 (1 / 2) False) toy_options 1
          (toy_mcmc Metropolis 0 1 1 no_rows) = []
   \<and> burn_in_left (snd (iterations (toy_env 3 1 (1 / 2) False) toy_options 1
          (toy_mcmc Metropolis 0 1 1 no_rows))) = burn_in toy_options + 1
   \<and> total_weight (snd (iterations (toy_env 3 1 (1 / 2) False) toy_options 1
          (toy_mcmc Metropolis 0 1 1 no_rows)))
       \<noteq> int 1 - sum_list (replaced_weights (toy_env 3 1 (1 / 2) False) toy_options 1
                   (toy_mcmc Metropolis 0 1 1 no_rows)) - 1"
  by code_simp

text \<open>
  Claim C5, amended: after any \<open>k\<close> proposals processed by the chain driver without an
  exception, the sum of the weights of all points stored in the collection plus the
  current point's weight is the sum before them plus \<open>k\<close>, minus the total weight of the
  points discarded in burn-in, which are the first \<open>burn_in_left\<close> points replaced by an
  accepted proposal. From startup, where \<^verbatim>\<open>initialise\<close> sets the countdown to
  \<open>burn_in + 1\<close> and \<^verbatim>\<open>run\<close> seats the initial point with weight one beside an empty
  collection, the sum is \<open>1 + k\<close> minus the weights of the initial point and of the first
  \<open>burn_in\<close> accepted points after it (of those among them that have been replaced so
  far), each with the rejections it had absorbed.
\<close>

theorem C5_weights_account_for_proposals:
  "(iterations env opts k st = (None, st') \<longrightarrow>
      total_weight st'
        = total_weight st + int k
          - sum_list (take (nat (burn_in_left st)) (replaced_weights env opts k st)))
   \<and> (initialise env read_file eigvals_positive opts speeds_of_params sampled_params s0 = Inr s1
      \<and> seat_initial_point env opts s1 = (None, s2)
      \<and> iterations env opts k (s2\<lparr>converged := False\<rparr>) = (None, s3) \<longrightarrow>
      total_weight s3
        = 1 + int k
          - sum_list (take (nat (burn_in opts + 1))
                        (replaced_weights env opts k (s2\<lparr>converged := False\<rparr>))))"
proof -
  have 1: "iterations env opts k st = (None, st') \<Longrightarrow>
      total_weight st'
        = total_weight st + int k
          - sum_list (take (nat (burn_in_left st)) (replaced_weights env opts k st))"
    for st st'
    using iterations_accounted [of env opts k st st'] by simp
  have 2: "total_weight s3
        = 1 + int k
          - sum_list (take (nat (burn_in opts + 1))
                        (replaced_weights env opts k (s2\<lparr>converged := False\<rparr>)))"
    if i: "initialise env read_file eigvals_positive opts speeds_of_params sampled_params s0
             = Inr s1"
      and s: "seat_initial_point env opts s1 = (None, s2)"
      and r: "iterations env opts k (s2\<lparr>converged := False\<rparr>) = (None, s3)"
  proof -
    from initialise_countdown [OF i] seat_initial_point_countdown [OF s]
      seat_initial_point_finite [OF s]
    have "burn_in_left (s2\<lparr>converged := False\<rparr>) = burn_in opts + 1"
      and "total_weight (s2\<lparr>converged := False\<rparr>) = 1"
      by (simp_all add: total_weight_def)
    with 1 [OF r] show ?thesis by simp
  qed
  from 1 2 show ?thesis by blast
qed

theorem C5_weights_account_for_proposals_witness:
  "\<not> isl (initialise (toy_env (- 1 / 4) 1 (1 / 2) False) no_file eigvals_ok toy_options
            toy_speeds toy_params (configured 0))
   \<and> fst (seat_initial_point (toy_env (- 1 / 4) 1 (1 / 2) False) toy_options
       (projr (initialise (toy_env (- 1 / 4) 1 (1 / 2) False) no_file eigvals_ok toy_options
                 toy_speeds toy_params (configured 0)))) = None
   \<and> fst (iterations (toy_env (- 1 / 4) 1 (1 / 2) False) toy_options 2
       ((snd (seat_initial_point (toy_env (- 1 / 4) 1 (1 / 2) False) toy_options
          (projr (initialise (toy_env (- 1 / 4) 1 (1 / 2) False) no_file eigvals_ok
                    toy_options toy_speeds toy_params (configured 0)))))
        \<lparr>converged := False\<rparr>)) = None
   \<and> replaced_weights (toy_env (- 1 / 4) 1 (1 / 2) False) toy_options 2
       ((snd (seat_initial_point (toy_env (- 1 / 4) 1 (1 / 2) False) toy_options
          (projr (initialise (toy_env (- 1 / 4) 1 (1 / 2) False) no_file eigvals_ok
                    toy_options toy_speeds toy_params (configured 0)))))
        \<lparr>converged := False\<rparr>) = [1, 1]
   \<and> burn_in toy_options = 0
   \<and> total_weight (snd (iterations (toy_env (- 1 / 4) 1 (1 / 2) False) toy_options 2
       ((snd (seat_initial_point (toy_env (- 1 / 4) 1 (1 / 2) False) toy_options
          (projr (initialise (toy_env (- 1 / 4) 1 (1 / 2) False) no_file eigvals_ok
                    toy_options toy_speeds toy_params (configured 0)))))
        \<lparr>converged := False\<rparr>))) = 2"
proof -
  let ?E = "toy_env (- 1 / 4) 1 (1 / 2) False"
  let ?I = "initialise ?E no_file eigvals_ok toy_options toy_speeds toy_params (configured 0)"
  let ?s = "seat_initial_point ?E toy_options (projr ?I)"
  let ?S = "(snd ?s)\<lparr>converged := False\<rparr>"
  let ?i = "iterations ?E toy_options 2 ?S"
  have 1: "\<not> isl ?I" by code_simp
  have 2: "fst ?s = None" by code_simp
  have 3: "fst ?i = None" by code_simp
  have 4: "replaced_weights ?E toy_options 2 ?S = [1, 1]" by code_simp
  have 5: "burn_in toy_options = 0" by (simp add: toy_options_def)
  have I: "?I = Inr (projr ?I)" using 1 by (cases ?I) simp_all
  have s: "?s = (None, snd ?s)" using 2 by (metis prod.collapse)
  have i: "?i = (None, snd ?i)" using 3 by (metis prod.collapse)
  from C5_weights_account_for_proposals [of ?E toy_options 2 ?S "snd ?i" no_file eigvals_ok
      toy_speeds toy_params "configured 0" "projr ?I" "snd ?s" "snd ?i"]
  have "total_weight (snd ?i)
        = 1 + int 2 - sum_list (take (nat (burn_in toy_options + 1))
                                  (replaced_weights ?E toy_options 2 ?S))"
    using I s i by blast
  then have "total_weight (snd ?i) = 2" unfolding 4 5 by simp
  with 1 2 3 4 5 show ?thesis by simp
qed
section \<open>The stuck-chain guard\<close>

text \<open>
  Claim C8: a rejection that makes the weight of the current point exceed \<open>max_tries\<close>
  flushes the collection and raises the stuck-chain error, and nothing is evaluated
  afterwards. The rejections that go through \<open>process_accept_or_reject\<close> do so, and the
  main loop ends with the exception:
\<close>

lemma stuck_chain_guard:
  "process_accept_or_reject opts False t d lp lpr ll st =
     (if max_tries opts < weight (current_point st) + 1
      then (Some HandledException,
            st\<lparr>current_point := increase_weight (current_point st) 1,
               collection := out_update (collection st)\<rparr>)
      else (None, st\<lparr>current_point := increase_weight (current_point st) 1\<rparr>))
   \<and> flushed (out_update (collection st)) = rows (collection st)"
  by (simp add: process_reject out_update_def)

lemma run_loop_raises:
  assumes "loop_body env opts st = (Some e, st')"
    and "flt (Finite (real_of_int (mcmc_n st))) (effective_max_samples st)" "\<not> converged st"
  shows "run_loop env opts (Suc k) st = (Raised e, st')"
  using assms by simp

lemma run_raises:
  assumes "seat_initial_point env opts st = (None, st1)"
    and "run_loop env opts fuel (st1\<lparr>converged := False\<rparr>) = (Raised e, st')"
  shows "run env opts fuel st = (Raised e, st')"
  using assms by (simp add: run_def)

text \<open>
  The dragging engine's immediate rejection of a slow proposal at minus infinity (lines
  454--456) increases the weight without that test. Here the current point has weight 3,
  which is \<open>max_tries\<close>: the rejection brings it to 4, nothing is flushed, nothing is
  raised, and the next pass of the loop evaluates the posterior again.
\<close>

theorem C8_dragging_rejection_skips_guard:
  "max_tries toy_options = 3
   \<and> weight (current_point (toy_mcmc Dragging 1 3 0 one_row)) = 3
   \<and> fst (call_get_new_sample (toy_env (- 2) 1 (1 / 2) False) toy_options
            (toy_mcmc Dragging 1 3 0 one_row)) = Inr False
   \<and> weight (current_point (snd (call_get_new_sample (toy_env (- 2) 1 (1 / 2) False)
            toy_options (toy_mcmc Dragging 1 3 0 one_row)))) = 4
   \<and> flushed (collection (snd (call_get_new_sample (toy_env (- 2) 1 (1 / 2) False)
            toy_options (toy_mcmc Dragging 1 3 0 one_row)))) = []
   \<and> rows (collection (snd (call_get_new_sample (toy_env (- 2) 1 (1 / 2) False)
            toy_options (toy_mcmc Dragging 1 3 0 one_row)))) = rows one_row
   \<and> rows one_row \<noteq> []
   \<and> fst (run_loop (toy_env (- 2) 1 (1 / 2) False) toy_options 2
            (toy_mcmc Dragging 1 3 0 one_row)) = Running
   \<and> calls (snd (run_loop (toy_env (- 2) 1 (1 / 2) False) toy_options 2
            (toy_mcmc Dragging 1 3 0 one_row)))
       = [GetProposalSlow, LogPosterior [Finite (- 1), Finite 1],
          GetProposalSlow, LogPosterior [Finite (- 1), Finite 1]]
   \<and> weight (current_point (snd (run_loop (toy_env (- 2) 1 (1 / 2) False) toy_options 2
            (toy_mcmc Dragging 1 3 0 one_row)))) = 5"
  by code_simp

section \<open>The accumulators of the dragging engine\<close>

lemma drag_step_accs:
  assumes "drag_step env steps (l, st) i = (l', st')"
  shows "start_drag_logpost_acc l' = fadd (start_drag_logpost_acc l) (current_start_logpost l')
       \<and> end_drag_logpost_acc l' = fadd (end_drag_logpost_acc l) (current_end_logpost l')"
  using assms unfolding drag_step_def
  by (auto simp: Let_def split: prod.splits if_splits)

lemma foldl_drag_accs:
  "start_drag_logpost_acc (fst (foldl (drag_step env steps) s is))
     = foldl fadd (start_drag_logpost_acc (fst s))
         (map (current_start_logpost \<circ> fst) (drag_states env steps s is))
   \<and> end_drag_logpost_acc (fst (foldl (drag_step env steps) s is))
     = foldl fadd (end_drag_logpost_acc (fst s))
         (map (current_end_logpost \<circ> fst) (drag_states env steps s is))"
proof (induction "is" arbitrary: s)
  case Nil
  show ?case by simp
next
  case (Cons i "is")
  obtain l st where s: "s = (l, st)" by (cases s)
  obtain l1 st1 where d: "drag_step env steps (l, st) i = (l1, st1)"
    by (cases "drag_step env steps (l, st) i")
  from drag_step_accs [OF d] Cons.IH [of "(l1, st1)"] show ?case
    by (simp add: s d)
qed

lemma length_drag_states: "length (drag_states env steps s is) = length is"
  by (induction "is" arbitrary: s) simp_all

lemma drag_begin_initial:
  assumes "drag_begin env st = (Some l0, st3)"
  shows "start_drag_logpost_acc l0 = fneg (minuslogpost (current_point st))
       \<and> end_drag_logpost_acc l0 = current_end_logpost l0
       \<and> current_end_logpost l0 = fst (logposterior env (heap st3 (current_end_point l0)))
       \<and> drag_interp_steps st3 = drag_interp_steps st"
  using assms
  by (auto simp: drag_begin_def Let_def deepcopy_def call_get_proposal_slow_def
      call_logposterior_def split: prod.splits if_splits)

text \<open>
  What the engine computes, for every \<open>n = drag_interp_steps \<ge> 1\<close>: once the slow
  proposal has passed the early test, the loop makes exactly \<open>n\<close> sub-steps; the
  accumulator \<open>S_start\<close> is the log-posterior of the current point plus, added in order,
  the current start log-posterior after each sub-step, and \<open>S_end\<close> is the log-posterior
  of the slow proposal plus the current end log-posterior after each sub-step, so each
  holds \<open>n + 1\<close> terms; and the value the engine returns is the Metropolis test on the
  pair \<open>(S_end / n, S_start / n)\<close>.
\<close>

lemma dragging_accumulators:
  assumes b: "drag_begin env st = (Some l0, st3)"
    and n: "1 \<le> drag_interp_steps st"
  shows "(let steps = drag_interp_steps st;
              hist = drag_states env steps (l0, st3) [1..steps];
              l = fst (drag_loop env steps (l0, st3));
              st4 = snd (drag_loop env steps (l0, st3))
          in length hist = nat steps
           \<and> start_drag_logpost_acc l
               = foldl fadd (fneg (minuslogpost (current_point st)))
                   (map (current_start_logpost \<circ> fst) hist)
           \<and> end_drag_logpost_acc l
               = foldl fadd (fst (logposterior env (heap st3 (current_end_point l0))))
                   (map (current_end_logpost \<circ> fst) hist)
           \<and> (\<forall>accept st'. get_new_sample_dragging env opts st = (Inr accept, st') \<longrightarrow>
                 accept = fst (metropolis_accept (exponential env)
                                 (fdiv (end_drag_logpost_acc l) (Finite (real_of_int steps)))
                                 (fdiv (start_drag_logpost_acc l) (Finite (real_of_int steps)))
                                 (rng st4))))"
proof -
  let ?n = "drag_interp_steps st"
  note i = drag_begin_initial [OF b]
  obtain l st4 where lp: "drag_loop env ?n (l0, st3) = (l, st4)"
    by (cases "drag_loop env ?n (l0, st3)")
  have len: "length (drag_states env ?n (l0, st3) [1..?n]) = nat ?n"
    using n by (simp add: length_drag_states)
  have accs: "start_drag_logpost_acc l
               = foldl fadd (fneg (minuslogpost (current_point st)))
                   (map (current_start_logpost \<circ> fst) (drag_states env ?n (l0, st3) [1..?n]))"
    "end_drag_logpost_acc l
               = foldl fadd (fst (logposterior env (heap st3 (current_end_point l0))))
                   (map (current_end_logpost \<circ> fst) (drag_states env ?n (l0, st3) [1..?n]))"
    using foldl_drag_accs [of env ?n "(l0, st3)" "[1..?n]"] lp i
    by (simp_all add: drag_loop_def)
  have s4: "drag_interp_steps st4 = ?n"
    using frame_fields(4) [OF drag_loop_frame [OF lp]] i by simp
  have acc: "\<And>accept st'. get_new_sample_dragging env opts st = (Inr accept, st') \<Longrightarrow>
                 accept = fst (metropolis_accept (exponential env)
                                 (fdiv (end_drag_logpost_acc l) (Finite (real_of_int ?n)))
                                 (fdiv (start_drag_logpost_acc l) (Finite (real_of_int ?n)))
                                 (rng st4))"
  proof -
    fix accept st'
    assume r: "get_new_sample_dragging env opts st = (Inr accept, st')"
    let ?t = "fdiv (end_drag_logpost_acc l) (Finite (real_of_int ?n))"
    let ?c = "fdiv (start_drag_logpost_acc l) (Finite (real_of_int ?n))"
    obtain a st5 where m: "call_metropolis_accept env ?t ?c st4 = (a, st5)"
      by (cases "call_metropolis_accept env ?t ?c st4")
    from r b lp m i s4 have "accept = a"
      by (auto simp: get_new_sample_dragging_def split: option.splits prod.splits)
    with frame_call_metropolis_accept [OF m] show "accept = fst (metropolis_accept
        (exponential env) ?t ?c (rng st4))" by simp
  qed
  show ?thesis
    unfolding Let_def lp fst_conv snd_conv
    using len accs acc by blast
qed

text \<open>
  Claim C3: each accumulator is the sum over exactly the \<open>n\<close> sub-steps, and the total
  test is the Metropolis rule on \<open>(S_end / n, S_start / n)\<close>. The engine departs from it:
  the accumulators start from the log-posteriors of the current point and of the slow
  proposal (\<^verbatim>\<open>start_drag_logpost_acc = start_slow_logpost\<close>), so they hold \<open>n + 1\<close>
  terms, and they are divided by \<open>n\<close>. With one sub-step, which is accepted, the values
  after the sub-step are \<open>-3\<close> and \<open>-4\<close>, the accumulators are \<open>-5\<close> and \<open>-7\<close>, and with
  the exponential draw \<open>3/2\<close> the engine tests \<open>-7\<close> against \<open>-5\<close> and rejects, where the
  Metropolis rule on the means over the sub-steps (\<open>-4\<close> against \<open>-3\<close>), and on the means
  of all \<open>n + 1\<close> terms (\<open>-7/2\<close> against \<open>-5/2\<close>), accepts.
\<close>

theorem C3_accumulators_divided_by_n:
  "drag_interp_steps (toy_mcmc Dragging 1 1 0 one_row) = 1
   \<and> fst (drag_begin (toy_env 1 1 (3 / 2) False) (toy_mcmc Dragging 1 1 0 one_row)) \<noteq> None
   \<and> map (current_start_logpost \<circ> fst) (drag_states (toy_env 1 1 (3 / 2) False) 1
        (the (fst (drag_begin (toy_env 1 1 (3 / 2) False) (toy_mcmc Dragging 1 1 0 one_row))),
         snd (drag_begin (toy_env 1 1 (3 / 2) False) (toy_mcmc Dragging 1 1 0 one_row))) [1..1])
       = [Finite (- 3)]
   \<and> map (current_end_logpost \<circ> fst) (drag_states (toy_env 1 1 (3 / 2) False) 1
        (the (fst (drag_begin (toy_env 1 1 (3 / 2) False) (toy_mcmc Dragging 1 1 0 one_row))),
         snd (drag_begin (toy_env 1 1 (3 / 2) False) (toy_mcmc Dragging 1 1 0 one_row))) [1..1])
       = [Finite (- 4)]
   \<and> start_drag_logpost_acc (fst (drag_loop (toy_env 1 1 (3 / 2) False) 1
        (the (fst (drag_begin (toy_env 1 1 (3 / 2) False) (toy_mcmc Dragging 1 1 0 one_row))),
         snd (drag_begin (toy_env 1 1 (3 / 2) False) (toy_mcmc Dragging 1 1 0 one_row)))))
       = Finite (- 5)
   \<and> end_drag_logpost_acc (fst (drag_loop (toy_env 1 1 (3 / 2) False) 1
        (the (fst (drag_begin (toy_env 1 1 (3 / 2) False) (toy_mcmc Dragging 1 1 0 one_row))),
         snd (drag_begin (toy_env 1 1 (3 / 2) False) (toy_mcmc Dragging 1 1 0 one_row)))))
       = Finite (- 7)
   \<and> fst (get_new_sample_dragging (toy_env 1 1 (3 / 2) False) toy_options
        (toy_mcmc Dragging 1 1 0 one_row)) = Inr False
   \<and> weight (current_point (snd (get_new_sample_dragging (toy_env 1 1 (3 / 2) False)
        toy_options (toy_mcmc Dragging 1 1 0 one_row)))) = 2
   \<and> fst (metropolis_accept (exponential (toy_env 1 1 (3 / 2) False))
        (fdiv (Finite (- 7)) (Finite 1)) (fdiv (Finite (- 5)) (Finite 1)) (0::nat)) = False
   \<and> fst (metropolis_accept (exponential (toy_env 1 1 (3 / 2) False))
        (fdiv (Finite (- 4)) (Finite 1)) (fdiv (Finite (- 3)) (Finite 1)) (0::nat)) = True
   \<and> fst (metropolis_accept (exponential (toy_env 1 1 (3 / 2) False))
        (fdiv (Finite (- 7)) (Finite 2)) (fdiv (Finite (- 5)) (Finite 2)) (0::nat)) = True"
  by code_simp
section \<open>A zero number of interpolation steps\<close>

lemma choose_mode_plain:
  assumes "drag_interp_steps st = 0" "drag_nfast_times opts = 0" "\<not> oversample opts"
  shows "choose_mode opts speeds blocks d st
           = Inr (st\<lparr>effective_max_samples := max_samples opts, n_slow := int d\<rparr>)"
  using assms by (simp add: choose_mode_def)

lemma initialise_plain:
  assumes "drag_interp_steps st = 0" "drag_nfast_times opts = 0" "\<not> oversample opts"
    and i: "initialise env read_file ev opts sop sp st = Inr st'"
  shows "get_new_sample st' = Metropolis \<and> drag_interp_steps st' = 0
       \<and> i_last_slow_block st' = i_last_slow_block st
       \<and> n_slow st' = int (length sp)
       \<and> (\<exists>m. calls st' = calls st @
             [BlockedProposer (map (\<lambda>(speed, b). map (index (map fst sp)) b) sop)
                (oversampling_factors st) (i_last_slow_block st),
              SetCovariance m])"
proof -
  let ?st0 = "st\<lparr>burn_in_left := burn_in opts + 1, collection := empty_collection,
                   current_point := empty_point, get_new_sample := Metropolis\<rparr>"
  have c: "\<And>speeds blocks. choose_mode opts speeds blocks (length sp) ?st0
           = Inr (?st0\<lparr>effective_max_samples := max_samples opts, n_slow := int (length sp)\<rparr>)"
    using assms(1-3) by (intro choose_mode_plain) simp_all
  from i show ?thesis
    unfolding initialise_def Let_def c
    by (auto simp: assms(1) split: if_splits sum.splits prod.splits)
qed

lemma process_calls:
  "process_accept_or_reject opts acc t d lp lpr ll st = (r, st') \<Longrightarrow>
   calls st' = calls st \<and> get_new_sample st' = get_new_sample st"
  by (auto simp: process_accept_or_reject_def Let_def add_to_collection_def
      split: if_splits)

lemma metropolis_step_calls:
  assumes r: "get_new_sample_metropolis env opts st = (res, st')"
  shows "calls st' = calls st @
           [GetProposal,
            LogPosterior (fst (get_proposal env (rng st) (heap st (pt_values (current_point st)))))]
       \<and> get_new_sample st' = get_new_sample st
       \<and> (\<forall>accept. res = Inr accept \<longrightarrow>
            accept = fst (metropolis_accept (exponential env)
                       (fst (logposterior env
                          (fst (get_proposal env (rng st) (heap st (pt_values (current_point st)))))))
                       (fneg (minuslogpost (current_point st)))
                       (snd (get_proposal env (rng st) (heap st (pt_values (current_point st)))))))"
proof -
  obtain v r1 where gp: "get_proposal env (rng st) (heap st (pt_values (current_point st))) = (v, r1)"
    by (cases "get_proposal env (rng st) (heap st (pt_values (current_point st)))")
  let ?st3 = "st\<lparr>heap := (heap st)(fresh st := v), fresh := Suc (fresh st), rng := r1,
                   calls := calls st @ [GetProposal, LogPosterior v]\<rparr>"
  have 3: "call_logposterior env (fresh st)
             (call_get_proposal env (fresh st) (snd (deepcopy (pt_values (current_point st)) st)))
           = (logposterior env v, ?st3)"
    by (simp add: deepcopy_def call_get_proposal_def call_logposterior_def gp)
  obtain lp lpr ll der where res: "logposterior env v = (lp, lpr, ll, der)"
    by (cases "logposterior env v") auto
  obtain acc st4 where 4: "call_metropolis_accept env lp (fneg (minuslogpost (current_point st))) ?st3 = (acc, st4)"
    by (cases "call_metropolis_accept env lp (fneg (minuslogpost (current_point st))) ?st3")
  obtain e st5 where p: "process_accept_or_reject opts acc (fresh st) der lp (Some lpr) ll st4 = (e, st5)"
    by (cases "process_accept_or_reject opts acc (fresh st) der lp (Some lpr) ll st4")
  have d: "deepcopy (pt_values (current_point st)) st
             = (fresh st, snd (deepcopy (pt_values (current_point st)) st))"
    by (simp add: deepcopy_def)
  from r have r': "(case e of Some x \<Rightarrow> (Inl x, st5) | None \<Rightarrow> (Inr acc, st5)) = (res, st')"
    unfolding get_new_sample_metropolis_def
    by (subst (asm) d) (simp add: 3 res 4 p)
  have c4: "calls st4 = calls ?st3" "get_new_sample st4 = get_new_sample st"
    and a: "acc = fst (metropolis_accept (exponential env) lp
        (fneg (minuslogpost (current_point st))) r1)"
    using 4 by (auto simp: call_metropolis_accept_def split: prod.splits)
  have "calls st5 = calls st4 \<and> get_new_sample st5 = get_new_sample st4"
    using p by (rule process_calls)
  moreover have "st' = st5" using r' by (cases e) auto
  moreover have "\<And>accept. res = Inr accept \<Longrightarrow> accept = acc" using r' by (cases e) auto
  ultimately show ?thesis using c4 a by (simp add: gp res)
qed

lemma loop_body_engine:
  fixes st :: "'r mcmc"
  assumes m: "get_new_sample st = Metropolis" and b: "loop_body env opts st = (r, st')"
  shows "get_new_sample st' = Metropolis"
proof -
  obtain res st1 where g: "get_new_sample_metropolis env opts st = (res, st1)"
    by (cases "get_new_sample_metropolis env opts st")
  have 1: "get_new_sample st1 = Metropolis" using metropolis_step_calls [OF g] m by simp
  have cb: "get_new_sample (snd (callback_step opts s)) = get_new_sample s"
    for s :: "'r mcmc"
    by (simp add: callback_step_def)
  have ar: "get_new_sample (snd (check_all_ready env opts s)) = get_new_sample s"
    for s :: "'r mcmc"
    by (auto simp: check_all_ready_def Let_def split: if_splits prod.splits)
  have cc: "get_new_sample (snd (check_convergence_and_learn_proposal env opts s))
              = get_new_sample s"
    for s :: "'r mcmc"
    by (auto simp: check_convergence_and_learn_proposal_def Let_def
        split: if_splits prod.splits option.splits)
  have "st' = st1 \<or> st' = snd (callback_step opts st1)
      \<or> st' = snd (check_all_ready env opts (snd (callback_step opts st1)))
      \<or> st' = snd (check_convergence_and_learn_proposal env opts
                    (snd (check_all_ready env opts (snd (callback_step opts st1)))))"
    using b m g
    by (auto simp: loop_body_def call_get_new_sample_def
        split: sum.splits option.splits prod.splits if_splits)
  with 1 cb ar cc show ?thesis by auto
qed

lemma iterations_engine:
  "get_new_sample st = Metropolis \<Longrightarrow>
   get_new_sample (snd (iterations env opts k st)) = Metropolis"
proof (induction k arbitrary: st)
  case 0
  then show ?case by simp
next
  case (Suc k)
  obtain r s where b: "loop_body env opts st = (r, s)" by (cases "loop_body env opts st")
  from loop_body_engine [OF Suc.prems b] have s: "get_new_sample s = Metropolis" .
  show ?case
  proof (cases r)
    case None
    with b Suc.IH [OF s] show ?thesis by simp
  next
    case (Some e)
    with b s show ?thesis by simp
  qed
qed

lemma seat_initial_point_engine:
  "get_new_sample (snd (seat_initial_point env opts st)) = get_new_sample st"
  by (auto simp: seat_initial_point_def Let_def call_logposterior_def
      split: prod.splits sum.splits)

text \<open>
  Claim C6, as stated: with \<open>drag_interp_steps = 0\<close> every iteration makes one proposal
  restricted to the slow blocks. It fails for two blocks of speeds 1 and 2 with
  \<open>max_speed_slow = 1\<close>: zero is falsy in
  \<^verbatim>\<open>elif self.drag_interp_steps or self.drag_nfast_times\<close>, so \<^verbatim>\<open>initialise\<close> keeps the
  plain Metropolis engine, gives the proposer no slow prefix and counts both parameters
  as slow; the iteration calls \<^verbatim>\<open>get_proposal\<close>, whose schedule runs over all blocks,
  and here the trial \<open>(1, 3/4)\<close> differs from the current point \<open>(1, 1)\<close> in the
  parameter of the fast block.
\<close>

theorem C6_counterexample:
  "drag_interp_steps (configured 0) = 0
   \<and> map fst toy_speeds = [1, 2] \<and> max_speed_slow toy_options = 1
   \<and> \<not> isl (initialise (toy_env_full 1 (- 1 / 4) (1 / 2)) no_file eigvals_ok toy_options
              toy_speeds toy_params (configured 0))
   \<and> get_new_sample (projr (initialise (toy_env_full 1 (- 1 / 4) (1 / 2)) no_file eigvals_ok
        toy_options toy_speeds toy_params (configured 0))) = Metropolis
   \<and> i_last_slow_block (projr (initialise (toy_env_full 1 (- 1 / 4) (1 / 2)) no_file
        eigvals_ok toy_options toy_speeds toy_params (configured 0))) = None
   \<and> n_slow (projr (initialise (toy_env_full 1 (- 1 / 4) (1 / 2)) no_file eigvals_ok
        toy_options toy_speeds toy_params (configured 0))) = 2
   \<and> calls (projr (initialise (toy_env_full 1 (- 1 / 4) (1 / 2)) no_file eigvals_ok
        toy_options toy_speeds toy_params (configured 0)))
       = [BlockedProposer [[0], [1]] None None,
          SetCovariance [[Finite 1, Finite 0], [Finite 0, Finite 1]]]
   \<and> fst (run (toy_env_full 1 (- 1 / 4) (1 / 2)) toy_options 1
        (projr (initialise (toy_env_full 1 (- 1 / 4) (1 / 2)) no_file eigvals_ok
           toy_options toy_speeds toy_params (configured 0)))) = Running
   \<and> calls (snd (run (toy_env_full 1 (- 1 / 4) (1 / 2)) toy_options 1
        (projr (initialise (toy_env_full 1 (- 1 / 4) (1 / 2)) no_file eigvals_ok
           toy_options toy_speeds toy_params (configured 0)))))
       = [BlockedProposer [[0], [1]] None None,
          SetCovariance [[Finite 1, Finite 0], [Finite 0, Finite 1]],
          LogPosterior [Finite 1, Finite 1],
          GetProposal,
          LogPosterior [Finite 1, Finite (3 / 4)]]"
  by code_simp


text \<open>
  Claim C6, amended: a sampler configured with \<open>drag_interp_steps = 0\<close>, no
  \<open>drag_nfast_times\<close> and no oversampling is not a dragging sampler. Whenever
  \<^verbatim>\<open>initialise\<close> returns, it has kept the plain Metropolis engine, left
  \<open>i_last_slow_block\<close> as it was (unset), counted every sampled parameter as slow and
  created the proposer over all blocks without a slow prefix; the engine is still the
  Metropolis one after the initial point is seated and after any number of iterations;
  and every call of that engine is one Metropolis step: one proposal by
  \<^verbatim>\<open>get_proposal\<close>, over all blocks, one evaluation of the posterior, at the trial, and
  the Metropolis rule on the trial's and the current point's log-posteriors, with no
  call of \<^verbatim>\<open>get_proposal_slow\<close> or \<^verbatim>\<open>get_proposal_fast\<close>.
\<close>

theorem C6_zero_steps_plain_metropolis:
  "(drag_interp_steps st = 0 \<and> drag_nfast_times opts = 0 \<and> \<not> oversample opts
      \<and> initialise env read_file eigvals_positive opts speeds_of_params sampled_params st
          = Inr st'
     \<longrightarrow> get_new_sample st' = Metropolis \<and> drag_interp_steps st' = 0
         \<and> i_last_slow_block st' = i_last_slow_block st
         \<and> n_slow st' = int (length sampled_params)
         \<and> (\<exists>m. calls st' = calls st @
               [BlockedProposer
                  (map (\<lambda>(speed, b). map (index (map fst sampled_params)) b) speeds_of_params)
                  (oversampling_factors st) (i_last_slow_block st),
                SetCovariance m]))
   \<and> (get_new_sample s = Metropolis
     \<longrightarrow> get_new_sample (snd (seat_initial_point env opts s)) = Metropolis
         \<and> get_new_sample (snd (iterations env opts k s)) = Metropolis)
   \<and> (get_new_sample s = Metropolis \<and> call_get_new_sample env opts s = (res, s')
     \<longrightarrow> calls s' = calls s @
           [GetProposal,
            LogPosterior (fst (get_proposal env (rng s) (heap s (pt_values (current_point s)))))]
         \<and> (\<forall>accept. res = Inr accept \<longrightarrow>
              accept = fst (metropolis_accept (exponential env)
                         (fst (logposterior env
                            (fst (get_proposal env (rng s)
                                    (heap s (pt_values (current_point s)))))))
                         (fneg (minuslogpost (current_point s)))
                         (snd (get_proposal env (rng s)
                                 (heap s (pt_values (current_point s))))))))"
proof (intro conjI impI)
  assume a: "drag_interp_steps st = 0 \<and> drag_nfast_times opts = 0 \<and> \<not> oversample opts
      \<and> initialise env read_file eigvals_positive opts speeds_of_params sampled_params st
          = Inr st'"
  then have 1: "drag_interp_steps st = 0" and 2: "drag_nfast_times opts = 0"
    and 3: "\<not> oversample opts"
    and 4: "initialise env read_file eigvals_positive opts speeds_of_params sampled_params st
          = Inr st'" by simp_all
  note p = initialise_plain [OF 1 2 3 4]
  from p show "get_new_sample st' = Metropolis" by (rule conjunct1)
  from p show "drag_interp_steps st' = 0" by simp
  from p show "i_last_slow_block st' = i_last_slow_block st" by simp
  from p show "n_slow st' = int (length sampled_params)" by simp
  from p show "\<exists>m. calls st' = calls st @
               [BlockedProposer
                  (map (\<lambda>(speed, b). map (index (map fst sampled_params)) b) speeds_of_params)
                  (oversampling_factors st) (i_last_slow_block st),
                SetCovariance m]" by simp
next
  assume "get_new_sample s = Metropolis"
  then show "get_new_sample (snd (seat_initial_point env opts s)) = Metropolis"
    by (simp add: seat_initial_point_engine)
next
  assume "get_new_sample s = Metropolis"
  then show "get_new_sample (snd (iterations env opts k s)) = Metropolis"
    by (rule iterations_engine)
next
  assume a: "get_new_sample s = Metropolis \<and> call_get_new_sample env opts s = (res, s')"
  then have g: "get_new_sample_metropolis env opts s = (res, s')"
    by (auto simp: call_get_new_sample_def)
  from metropolis_step_calls [OF g]
  show "calls s' = calls s @
           [GetProposal,
            LogPosterior (fst (get_proposal env (rng s) (heap s (pt_values (current_point s)))))]"
    by (rule conjunct1)
next
  assume a: "get_new_sample s = Metropolis \<and> call_get_new_sample env opts s = (res, s')"
  then have g: "get_new_sample_metropolis env opts s = (res, s')"
    by (auto simp: call_get_new_sample_def)
  from metropolis_step_calls [OF g]
  show "\<forall>accept. res = Inr accept \<longrightarrow>
              accept = fst (metropolis_accept (exponential env)
                         (fst (logposterior env
                            (fst (get_proposal env (rng s)
                                    (heap s (pt_values (current_point s)))))))
                         (fneg (minuslogpost (current_point s)))
                         (snd (get_proposal env (rng s)
                                 (heap s (pt_values (current_point s))))))"
    by simp
qed

theorem C6_zero_steps_plain_metropolis_witness:
  "drag_interp_steps (configured 0) = 0 \<and> drag_nfast_times toy_options = 0
   \<and> \<not> oversample toy_options
   \<and> \<not> isl (initialise (toy_env_full 1 (- 1 / 4) (1 / 2)) no_file eigvals_ok toy_options
              toy_speeds toy_params (configured 0))
   \<and> get_new_sample (projr (initialise (toy_env_full 1 (- 1 / 4) (1 / 2)) no_file eigvals_ok
        toy_options toy_speeds toy_params (configured 0))) = Metropolis
   \<and> n_slow (projr (initialise (toy_env_full 1 (- 1 / 4) (1 / 2)) no_file eigvals_ok
        toy_options toy_speeds toy_params (configured 0))) = 2
   \<and> calls (snd (call_get_new_sample (toy_env_full 1 (- 1 / 4) (1 / 2)) toy_options
        (snd (seat_initial_point (toy_env_full 1 (- 1 / 4) (1 / 2)) toy_options
           (projr (initialise (toy_env_full 1 (- 1 / 4) (1 / 2)) no_file eigvals_ok
              toy_options toy_speeds toy_params (configured 0)))))))
       = calls (snd (seat_initial_point (toy_env_full 1 (- 1 / 4) (1 / 2)) toy_options
           (projr (initialise (toy_env_full 1 (- 1 / 4) (1 / 2)) no_file eigvals_ok
              toy_options toy_speeds toy_params (configured 0)))))
         @ [GetProposal, LogPosterior [Finite 1, Finite (3 / 4)]]"
proof -
  let ?E = "toy_env_full 1 (- 1 / 4) (1 / 2)"
  let ?I = "initialise ?E no_file eigvals_ok toy_options toy_speeds toy_params (configured 0)"
  let ?S = "snd (seat_initial_point ?E toy_options (projr ?I))"
  let ?g = "call_get_new_sample ?E toy_options ?S"
  have 1: "drag_interp_steps (configured 0) = 0" by (simp add: configured_def)
  have 2: "drag_nfast_times toy_options = 0" by (simp add: toy_options_def)
  have 3: "\<not> oversample toy_options" by (simp add: toy_options_def)
  have 4: "\<not> isl ?I" by code_simp
  have I: "?I = Inr (projr ?I)" using 4 by (cases ?I) simp_all
  have l: "length toy_params = 2" by (simp add: toy_params_def)
  have t: "fst (get_proposal ?E (rng ?S) (heap ?S (pt_values (current_point ?S))))
             = [Finite 1, Finite (3 / 4)]" by code_simp
  have g: "?g = (fst ?g, snd ?g)" by simp
  note inst = C6_zero_steps_plain_metropolis [where st = "configured 0" and opts = toy_options
      and env = ?E and read_file = no_file and eigvals_positive = eigvals_ok
      and speeds_of_params = toy_speeds and sampled_params = toy_params and st' = "projr ?I"
      and s = "projr ?I" and k = 0 and res = "fst ?g" and s' = "snd ?g"]
  from inst 1 2 3 I have m: "get_new_sample (projr ?I) = Metropolis"
    and n: "n_slow (projr ?I) = int (length toy_params)" by simp_all
  note inst' = C6_zero_steps_plain_metropolis [where st = "configured 0" and opts = toy_options
      and env = ?E and read_file = no_file and eigvals_positive = eigvals_ok
      and speeds_of_params = toy_speeds and sampled_params = toy_params and st' = "projr ?I"
      and s = ?S and k = 0 and res = "fst ?g" and s' = "snd ?g"]
  have mS: "get_new_sample ?S = Metropolis"
    using inst m by simp
  from inst' mS g have "calls (snd ?g) = calls ?S @
      [GetProposal,
       LogPosterior (fst (get_proposal ?E (rng ?S) (heap ?S (pt_values (current_point ?S)))))]"
    by simp
  then have c: "calls (snd ?g) = calls ?S @ [GetProposal, LogPosterior [Finite 1, Finite (3 / 4)]]"
    unfolding t .
  from 1 2 3 4 m n l c show ?thesis by simp
qed
end
